theory Spec2Isabelle
  imports Complex_Main "HOL-Library.Word" "HOL-Library.Multiset"
begin

section \<open>Basic data: bytes, addresses, errors\<close>

type_synonym byte = "8 word"

text \<open>A go-ethereum \<open>common.Address\<close> is a \<open>[20]byte\<close> array, read here as a 160-bit value.\<close>

type_synonym address = "160 word"

text \<open>
  Errors are values. \<open>RPCError code message\<close> is \<open>errors.NewRPCError(code, message, nil)\<close>,
  its formatted message (\<open>"banned entity: <hex>"\<close>, \<open>"throttled entity: <hex>"\<close>) kept
  as a constructor with the address; \<open>ExternalError\<close> is an error handed back by a
  collaborator (database, RPC node, signer); \<open>ErrFlashbotsBroadcastBundle errs\<close> is
  the package's error of that name wrapping the joined errors of the builders;
  \<open>NilPointerPanic\<close> is the panic of \<open>big.Int\<close> arithmetic on a nil pointer.
\<close>

datatype rpcMessage = BannedEntity address | ThrottledEntity address

datatype error =
    RPCError int rpcMessage
  | ExternalError string
  | ErrFlashbotsBroadcastBundle "string list"
  | NilPointerPanic

text \<open>Big-endian bytes of a number, on a fixed width (the value is taken modulo \<open>256 ^ n\<close>).\<close>

fun be_bytes :: "nat \<Rightarrow> nat \<Rightarrow> byte list" where
  "be_bytes 0 v = []"
| "be_bytes (Suc n) v = be_bytes n (v div 256) @ [of_nat (v mod 256)]"

definition from_be :: "byte list \<Rightarrow> nat" where
  "from_be bs = foldl (\<lambda>acc b. acc * 256 + unat b) 0 bs"

definition address_bytes :: "address \<Rightarrow> byte list" where
  "address_bytes a = be_bytes 20 (unat a)"

text \<open>\<open>common.BytesToAddress\<close>: the last 20 bytes, as a big-endian value.\<close>

definition BytesToAddress :: "byte list \<Rightarrow> address" where
  "BytesToAddress bs = of_nat (from_be (drop (length bs - 20) bs))"

text \<open>\<open>common.LeftPadBytes(slice, l)\<close>: zeros in front, up to length \<open>l\<close>.\<close>

definition LeftPadBytes :: "byte list \<Rightarrow> nat \<Rightarrow> byte list" where
  "LeftPadBytes bs l = (if l \<le> length bs then bs else replicate (l - length bs) 0 @ bs)"

text \<open>The number of zero bytes that bring a length to the next multiple of 32.\<close>

definition padLen :: "nat \<Rightarrow> nat" where
  "padLen n = (32 - n mod 32) mod 32"

definition RightPad32 :: "byte list \<Rightarrow> byte list" where
  "RightPad32 bs = bs @ replicate (padLen (length bs)) 0"

text \<open>A \<open>uint256\<close> on 32 bytes, big-endian.\<close>

definition uint256_bytes :: "int \<Rightarrow> byte list" where
  "uint256_bytes v = be_bytes 32 (nat (v mod 2 ^ 256))"

definition zero_address :: address where
  "zero_address = 0"

section \<open>The AiOperation record (package aiop)\<close>

text \<open>
  The fields are those of the source's \<open>aiop.AiOperation\<close>; a \<open>*big.Int\<close> is an unbounded
  \<open>int\<close>, a \<open>[]byte\<close> a list of bytes.
\<close>

record AiOperation =
  Sender :: address
  Nonce :: int
  InitCode :: "byte list"
  CallData :: "byte list"
  CallGasLimit :: int
  VerificationGasLimit :: int
  PreVerificationGas :: int
  MaxFeePerGas :: int
  MaxPriorityFeePerGas :: int
  PaymasterAndData :: "byte list"
  Signature :: "byte list"

text \<open>
  Modelled from the spec: \<open>GetFactory\<close> of package aiop is not among the sources;
  the spec gives \<open>factory = initCode[0:20] if len \<ge> 20 else zero\<close>.
\<close>

definition GetFactory :: "AiOperation \<Rightarrow> address" where
  "GetFactory op = (if length (InitCode op) \<ge> 20
     then BytesToAddress (take 20 (InitCode op)) else zero_address)"

text \<open>
  Modelled from the spec: \<open>GetPaymaster\<close> of package aiop is not among the sources;
  the spec gives \<open>paymaster = paymasterAndData[0:20] if len \<ge> 20 else zero\<close>.
\<close>

definition GetPaymaster :: "AiOperation \<Rightarrow> address" where
  "GetPaymaster op = (if length (PaymasterAndData op) \<ge> 20
     then BytesToAddress (take 20 (PaymasterAndData op)) else zero_address)"

text \<open>
  Modelled from the spec: \<open>GetMaxGasAvailable\<close> of package aiop is not among the sources;
  the spec gives
  \<open>maxGasAvailable = callGasLimit + verificationGasLimit \<times> (paymaster ? 3 : 1) + preVerificationGas\<close>.
\<close>

definition GetMaxGasAvailable :: "AiOperation \<Rightarrow> int" where
  "GetMaxGasAvailable op =
     CallGasLimit op
     + VerificationGasLimit op * (if GetPaymaster op \<noteq> zero_address then 3 else 1)
     + PreVerificationGas op"

text \<open>
  Modelled from the spec: \<open>Pack\<close> of package aiop is not among the sources. The spec says
  that the canonical packing concatenates the ABI-padded fields in the fixed order sender,
  nonce, initCode, callData, callGasLimit, verificationGasLimit, preVerificationGas,
  maxFeePerGas, maxPriorityFeePerGas, paymasterAndData, signature. A fixed-size field is
  padded on the left to 32 bytes, a byte string on the right to a multiple of 32 bytes.
\<close>

definition Pack :: "AiOperation \<Rightarrow> byte list" where
  "Pack op =
     LeftPadBytes (address_bytes (Sender op)) 32
     @ uint256_bytes (Nonce op)
     @ RightPad32 (InitCode op)
     @ RightPad32 (CallData op)
     @ uint256_bytes (CallGasLimit op)
     @ uint256_bytes (VerificationGasLimit op)
     @ uint256_bytes (PreVerificationGas op)
     @ uint256_bytes (MaxFeePerGas op)
     @ uint256_bytes (MaxPriorityFeePerGas op)
     @ RightPad32 (PaymasterAndData op)
     @ RightPad32 (Signature op)"

text \<open>
  Modelled from the spec: \<open>ToMap\<close> and \<open>New\<close> of package aiop are not among the sources.
  \<open>ToMap\<close> turns an operation into its map of JSON fields and \<open>New\<close> reads such a map
  back; the spec requires the JSON round trip to be lossless
  (\<open>parse(serialize(op)) == op\<close>). The map of fields is modelled by the record itself, so
  both succeed and return what they are given.
\<close>

definition ToMap :: "AiOperation \<Rightarrow> error + AiOperation" where
  "ToMap op = Inr op"

definition New :: "AiOperation \<Rightarrow> error + AiOperation" where
  "New data = Inr data"

section \<open>Gas overhead (pkg/gas/overhead.go, pkg/gas/pvg.go)\<close>

text \<open>
  The \<open>float64\<close> parameters of \<open>Overhead\<close> are modelled by exact reals: with the default
  parameters every intermediate value is a non-negative integer far below \<open>2 ^ 53\<close>, where
  \<open>float64\<close> arithmetic is exact, and a division by 32 is exact in binary floating point.
\<close>

type_synonym CalcPreVerificationGasFunc = "AiOperation \<Rightarrow> int \<Rightarrow> error + int option"

record Overhead =
  intrinsicFixed :: real
  perAiOpFixed :: real
  perAiOpMultiplier :: real
  zeroByte :: real
  nonZeroByte :: real
  minBundleSize :: real
  warmStorageRead :: real
  callWithValue :: real
  callOpcode :: real
  nonZeroValueStipend :: real
  sanitizedPVG :: int
  sanitizedVGL :: int
  sanitizedCGL :: int
  calcPVGFunc :: CalcPreVerificationGasFunc
  pvgBufferFactor :: int

text \<open>\<open>calcPVGFuncNoop\<close> returns \<open>(nil, nil)\<close>: no value and no error.\<close>

definition calcPVGFuncNoop :: CalcPreVerificationGasFunc where
  "calcPVGFuncNoop op static = Inr None"

definition NewDefaultOverhead :: Overhead where
  "NewDefaultOverhead = \<lparr>
     intrinsicFixed = 21000,
     perAiOpFixed = 22874,
     perAiOpMultiplier = 25,
     zeroByte = 4,
     nonZeroByte = 16,
     minBundleSize = 1,
     warmStorageRead = 100,
     callWithValue = 9000,
     callOpcode = 700,
     nonZeroValueStipend = 2300,
     sanitizedPVG = 100000,
     sanitizedVGL = 1000000,
     sanitizedCGL = 1000000,
     calcPVGFunc = calcPVGFuncNoop,
     pvgBufferFactor = 0 \<rparr>"

fun callDataCostLoop :: "Overhead \<Rightarrow> byte list \<Rightarrow> real \<Rightarrow> real" where
  "callDataCostLoop ov [] cost = cost"
| "callDataCostLoop ov (b # bs) cost =
     callDataCostLoop ov bs (if b = 0 then cost + zeroByte ov else cost + nonZeroByte ov)"

definition CalcCallDataCost :: "Overhead \<Rightarrow> AiOperation \<Rightarrow> real" where
  "CalcCallDataCost ov op = callDataCostLoop ov (Pack op) 0"

definition CalcPerAiOpCost :: "Overhead \<Rightarrow> AiOperation \<Rightarrow> real" where
  "CalcPerAiOpCost ov op =
     (let opLen = of_int \<lfloor>real (length (Pack op) + 31) / 32\<rfloor>;
          cost = (perAiOpMultiplier ov * opLen) + perAiOpFixed ov
      in cost)"

text \<open>\<open>math.Round\<close>: to the nearest integer, halves away from zero.\<close>

definition math_Round :: "real \<Rightarrow> int" where
  "math_Round x = (if x \<ge> 0 then \<lfloor>x + 1 / 2\<rfloor> else - \<lfloor>- x + 1 / 2\<rfloor>)"

text \<open>The sanitising assignments of \<open>CalcPreVerificationGas\<close> on the map of fields.\<close>

definition sanitize :: "Overhead \<Rightarrow> AiOperation \<Rightarrow> AiOperation \<Rightarrow> AiOperation" where
  "sanitize ov op data = data\<lparr>
     PreVerificationGas := sanitizedPVG ov,
     VerificationGasLimit := sanitizedVGL ov,
     CallGasLimit := sanitizedCGL ov,
     Signature := replicate (length (Signature op)) 1 \<rparr>"

definition CalcPreVerificationGas :: "Overhead \<Rightarrow> AiOperation \<Rightarrow> error + int" where
  "CalcPreVerificationGas ov op =
     (case ToMap op of
        Inl err \<Rightarrow> Inl err
      | Inr data \<Rightarrow>
         (case New (sanitize ov op data) of
            Inl err \<Rightarrow> Inl err
          | Inr tmp \<Rightarrow>
             (let batchOv = (intrinsicFixed ov / minBundleSize ov) + CalcCallDataCost ov tmp;
                  pvg = batchOv + CalcPerAiOpCost ov tmp;
                  static = math_Round pvg
              in case calcPVGFunc ov tmp static of
                   Inl err \<Rightarrow> Inl err
                 | Inr (Some g) \<Rightarrow> Inr g
                 | Inr None \<Rightarrow> Inr static)))"

section \<open>The batch context and MaintainGasLimit (pkg/modules/batch/gaslimit.go)\<close>

text \<open>
  \<open>modules.BatchHandlerCtx\<close> is declared outside the sources; its fields are those the
  handlers and \<open>Bundler.Process\<close> read and write. \<open>BaseFee\<close>, \<open>Tip\<close> and \<open>GasPrice\<close> are
  \<open>*big.Int\<close> pointers that may be nil.
\<close>

record BatchHandlerCtx =
  Batch :: "AiOperation list"
  PendingRemoval :: "(AiOperation \<times> string) list"
  AiMiddleware :: address
  ChainID :: int
  BaseFee :: "int option"
  Tip :: "int option"
  GasPrice :: "int option"
  Data :: "(string \<times> string) list"

fun gasLimitLoop :: "int \<Rightarrow> AiOperation list \<Rightarrow> AiOperation list \<Rightarrow> int
    \<Rightarrow> error + AiOperation list" where
  "gasLimitLoop maxBatchGasLimit [] bat sm = Inr bat"
| "gasLimitLoop maxBatchGasLimit (op # ops) bat sm =
     (case CalcPreVerificationGas NewDefaultOverhead op of
        Inl err \<Rightarrow> Inl err
      | Inr static \<Rightarrow>
         (let mgl = GetMaxGasAvailable op - PreVerificationGas op;
              mga = mgl + static;
              sm' = sm + mga
          in if sm' \<ge> maxBatchGasLimit then Inr bat
             else gasLimitLoop maxBatchGasLimit ops (bat @ [op]) sm'))"

definition MaintainGasLimit :: "int \<Rightarrow> BatchHandlerCtx \<Rightarrow> error + BatchHandlerCtx" where
  "MaintainGasLimit maxBatchGasLimit ctx =
     (case gasLimitLoop maxBatchGasLimit (Batch ctx) [] 0 of
        Inl err \<Rightarrow> Inl err
      | Inr bat \<Rightarrow> Inr (ctx\<lparr>Batch := bat\<rparr>))"

section \<open>Reputation (package entities)\<close>

datatype ReputationStatus = ok | throttled | banned

record ReputationConstants =
  MinUnstakeDelay :: int
  MinStakeValue :: int
  SameSenderMempoolCount :: int
  SameUnstakedEntityMempoolCount :: int
  ThrottledEntityMempoolCount :: int
  ThrottledEntityLiveBlocks :: int
  ThrottledEntityBundleCount :: int
  MinInclusionRateDenominator :: int
  ThrottlingSlack :: int
  BanSlack :: int

text \<open>The defaults of \<open>NewReputationConstantsFromEnv\<close>.\<close>

definition defaultReputationConstants :: ReputationConstants where
  "defaultReputationConstants = \<lparr>
     MinUnstakeDelay = 86400,
     MinStakeValue = 2000000000000000,
     SameSenderMempoolCount = 10,
     SameUnstakedEntityMempoolCount = 11,
     ThrottledEntityMempoolCount = 4,
     ThrottledEntityLiveBlocks = 10,
     ThrottledEntityBundleCount = 10,
     MinInclusionRateDenominator = 10,
     ThrottlingSlack = 10,
     BanSlack = 50 \<rparr>"

text \<open>
  Modelled from the spec: the code \<open>errors.BANNED_OR_THROTTLED_ENTITY\<close> of package errors is
  not among the sources; the spec gives \<open>-32502\<close> for banned/throttled.
\<close>

definition BANNED_OR_THROTTLED_ENTITY :: int where
  "BANNED_OR_THROTTLED_ENTITY = - 32502"

text \<open>
  The database transaction, as far as the status needs it: reading the counters
  \<open>(opsSeen, opsIncluded)\<close> of an address, which may fail with a database error.
\<close>

type_synonym txn = "address \<Rightarrow> string + (nat \<times> nat)"

text \<open>
  Modelled from the spec: \<open>getStatus\<close> of package entities is not among the sources. The
  spec derives the status from the counters and the constants: with
  \<open>min = seen / MinInclusionRateDenominator\<close>, banned when \<open>included + BanSlack < min\<close>,
  throttled when \<open>included + ThrottlingSlack < min\<close>, ok otherwise.
\<close>

definition getStatus :: "txn \<Rightarrow> address \<Rightarrow> ReputationConstants \<Rightarrow> error + ReputationStatus" where
  "getStatus t entity repConst =
     (case t entity of
        Inl e \<Rightarrow> Inl (ExternalError e)
      | Inr (seen, included) \<Rightarrow>
         (let mn = int seen div MinInclusionRateDenominator repConst
          in if int included + BanSlack repConst < mn then Inr banned
             else if int included + ThrottlingSlack repConst < mn then Inr throttled
             else Inr ok))"

text \<open>
  \<open>modules.AiOpHandlerCtx\<close>: the operation and what \<open>GetPendingSenderOps\<close>,
  \<open>GetPendingFactoryOps\<close> and \<open>GetPendingPaymasterOps\<close> return.
\<close>

record AiOpHandlerCtx =
  AiOp :: AiOperation
  pendingSenderOps :: "AiOperation list"
  pendingFactoryOps :: "AiOperation list"
  pendingPaymasterOps :: "AiOperation list"

text \<open>
  \<open>CheckStatus\<close>: the function run inside \<open>db.Update\<close>; \<open>None\<close> is a nil error. The three
  blocks of the source (sender, factory, paymaster) are three definitions, run in the
  source's order; each returns the error the block returns, or \<open>None\<close> when the block falls
  through.
\<close>

definition checkSenderStatus :: "ReputationConstants \<Rightarrow> txn \<Rightarrow> AiOpHandlerCtx \<Rightarrow> error option" where
  "checkSenderStatus repConst t ctx =
     (case getStatus t (Sender (AiOp ctx)) repConst of
        Inl err \<Rightarrow> Some err
      | Inr status \<Rightarrow>
         if status = banned
         then Some (RPCError BANNED_OR_THROTTLED_ENTITY (BannedEntity (Sender (AiOp ctx))))
         else if status = throttled
              \<and> int (length (pendingSenderOps ctx)) = ThrottledEntityMempoolCount repConst
         then Some (RPCError BANNED_OR_THROTTLED_ENTITY (ThrottledEntity (Sender (AiOp ctx))))
         else None)"

definition checkFactoryStatus :: "ReputationConstants \<Rightarrow> txn \<Rightarrow> AiOpHandlerCtx \<Rightarrow> error option" where
  "checkFactoryStatus repConst t ctx =
     (let factory = GetFactory (AiOp ctx)
      in if factory \<noteq> zero_address then
           (case getStatus t factory repConst of
              Inl err \<Rightarrow> Some err
            | Inr status \<Rightarrow>
               if status = banned
               then Some (RPCError BANNED_OR_THROTTLED_ENTITY (BannedEntity factory))
               else if status = throttled
                    \<and> int (length (pendingFactoryOps ctx)) = ThrottledEntityMempoolCount repConst
               then Some (RPCError BANNED_OR_THROTTLED_ENTITY (ThrottledEntity factory))
               else None)
         else None)"

definition checkPaymasterStatus :: "ReputationConstants \<Rightarrow> txn \<Rightarrow> AiOpHandlerCtx \<Rightarrow> error option" where
  "checkPaymasterStatus repConst t ctx =
     (let paymaster = GetPaymaster (AiOp ctx)
      in if paymaster \<noteq> zero_address then
           (case getStatus t paymaster repConst of
              Inl err \<Rightarrow> Some err
            | Inr status \<Rightarrow>
               if status = banned
               then Some (RPCError BANNED_OR_THROTTLED_ENTITY (BannedEntity paymaster))
               else if status = throttled
                    \<and> int (length (pendingPaymasterOps ctx)) = ThrottledEntityMempoolCount repConst
               then Some (RPCError BANNED_OR_THROTTLED_ENTITY (ThrottledEntity paymaster))
               else None)
         else None)"

definition CheckStatus :: "ReputationConstants \<Rightarrow> txn \<Rightarrow> AiOpHandlerCtx \<Rightarrow> error option" where
  "CheckStatus repConst t ctx =
     (case checkSenderStatus repConst t ctx of
        Some err \<Rightarrow> Some err
      | None \<Rightarrow>
         (case checkFactoryStatus repConst t ctx of
            Some err \<Rightarrow> Some err
          | None \<Rightarrow> checkPaymasterStatus repConst t ctx))"

section \<open>Storage slot validation (pkg/aimiddleware/simulation/storageslots.go)\<close>

text \<open>
  The tracer delivers a slot as a hex string; a slot is modelled by the number that
  \<open>big.Int.SetString(slot, 0)\<close> reads from it, and a set of slots by a list.
\<close>

type_synonym slot = nat
type_synonym storageSlots = "slot list"

definition associatedSlotOffset :: nat where
  "associatedSlotOffset = 128"

definition isAssociatedWith :: "storageSlots \<Rightarrow> slot \<Rightarrow> bool" where
  "isAssociatedWith entitySlots sl =
     list_ex (\<lambda>entitySlot. sl \<ge> entitySlot \<and> sl \<le> entitySlot + associatedSlotOffset) entitySlots"

text \<open>The address of the precompile, \<open>rip7212precompile\<close>, is declared outside the sources
  and is a parameter.\<close>

definition isRIP7212Call :: "address \<Rightarrow> bool \<Rightarrow> address \<Rightarrow> bool" where
  "isRIP7212Call rip7212precompile isRIP7212Supported addr =
     (isRIP7212Supported \<and> addr = rip7212precompile)"

text \<open>\<open>addr2KnownEntity\<close> returns \<open>"factory"\<close>, \<open>"account"\<close>, \<open>"paymaster"\<close> or the address
  as a string; the four cases are the constructors of a datatype.\<close>

datatype knownEntityName = Factory | Account | Paymaster | OtherAddress address

definition addr2KnownEntity :: "AiOperation \<Rightarrow> address \<Rightarrow> knownEntityName" where
  "addr2KnownEntity op addr =
     (if addr = GetFactory op then Factory
      else if addr = Sender op then Account
      else if addr = GetPaymaster op then Paymaster
      else OtherAddress addr)"

datatype accessMode = accessModeRead | accessModeWrite

text \<open>
  A Go map is an association list, walked in the order of the list (Go leaves the order
  unspecified). \<open>tracer.AccessInfo\<close> has the slots read, with the value read, and the slots
  written, with a count; \<open>tracer.ContractSizeInfo\<close> has the size and the opcode.
\<close>

record AccessInfo =
  Reads :: "(slot \<times> string) list"
  Writes :: "(slot \<times> nat) list"

record ContractSizeInfo =
  ContractSize :: int
  Opcode :: string

datatype slotError =
    NoDeployedCode string string address
  | ForbiddenAccess string accessMode knownEntityName slot
  | UnstakedAccess string knownEntityName slot

text \<open>\<open>AltMempools.HasInvalidStorageAccessException\<close> belongs to package altmempools,
  outside the sources: the directory is the function it computes.\<close>

record storageSlotsValidator =
  Op :: AiOperation
  AiMiddlewareAddr :: address
  IsRIP7212Supported :: bool
  AltMempools :: "string \<Rightarrow> knownEntityName \<Rightarrow> slot \<Rightarrow> string list"
  SenderSlots :: "storageSlots option"
  FactoryIsStaked :: bool
  EntityName :: string
  EntityAddr :: address
  EntityAccessMap :: "(address \<times> AccessInfo) list"
  EntityContractSizeMap :: "(address \<times> ContractSizeInfo) list"
  EntitySlots :: "storageSlots option"
  EntityIsStaked :: bool

text \<open>The first loop of \<open>Process\<close>: calls to addresses with no deployed code.\<close>

fun contractSizeLoop :: "address \<Rightarrow> storageSlotsValidator \<Rightarrow> (address \<times> ContractSizeInfo) list
    \<Rightarrow> slotError option" where
  "contractSizeLoop rip v [] = None"
| "contractSizeLoop rip v ((ca, csi) # rest) =
     (if ca \<noteq> Sender (Op v) \<and> ContractSize csi = 0
         \<and> \<not> isRIP7212Call rip (IsRIP7212Supported v) ca
      then Some (NoDeployedCode (EntityName v) (Opcode csi) ca)
      else contractSizeLoop rip v rest)"

text \<open>
  The body of the loop over the slots of one access mode. The state is
  \<open>(mustStakeSlot, altMempoolIds)\<close>, \<open>None\<close> for the empty string; \<open>Inl\<close> is the early
  return with an error.
\<close>

definition slotStep :: "storageSlotsValidator \<Rightarrow> storageSlots \<Rightarrow> storageSlots \<Rightarrow> address
    \<Rightarrow> accessMode \<Rightarrow> slot \<Rightarrow> slot option \<times> string list
    \<Rightarrow> (string list \<times> slotError) + (slot option \<times> string list)" where
  "slotStep v senderSlots entitySlots addr mode sl st =
     (case st of (mustStakeSlot, altMempoolIds) \<Rightarrow>
        if isAssociatedWith senderSlots sl then
          (if (length (InitCode (Op v)) > 0 \<and> \<not> FactoryIsStaked v)
              \<or> (length (InitCode (Op v)) > 0 \<and> FactoryIsStaked v \<and> EntityAddr v \<noteq> Sender (Op v))
           then Inr (Some sl, altMempoolIds)
           else Inr (mustStakeSlot, altMempoolIds))
        else
          (let amIds = AltMempools v (EntityName v) (addr2KnownEntity (Op v) addr) sl
           in if (isAssociatedWith entitySlots sl \<or> mode = accessModeRead) \<and> length amIds = 0
              then Inr (Some sl, altMempoolIds)
              else if length amIds > 0 then Inr (mustStakeSlot, altMempoolIds @ amIds)
              else Inl (altMempoolIds, ForbiddenAccess (EntityName v) mode
                          (addr2KnownEntity (Op v) addr) sl)))"

fun slotsLoop :: "storageSlotsValidator \<Rightarrow> storageSlots \<Rightarrow> storageSlots \<Rightarrow> address
    \<Rightarrow> accessMode \<Rightarrow> slot list \<Rightarrow> slot option \<times> string list
    \<Rightarrow> (string list \<times> slotError) + (slot option \<times> string list)" where
  "slotsLoop v senderSlots entitySlots addr mode [] st = Inr st"
| "slotsLoop v senderSlots entitySlots addr mode (sl # rest) st =
     (case slotStep v senderSlots entitySlots addr mode sl st of
        Inl e \<Rightarrow> Inl e
      | Inr st' \<Rightarrow> slotsLoop v senderSlots entitySlots addr mode rest st')"

text \<open>The loop over \<open>accessTypes\<close>, a map with the two keys read and write.\<close>

fun modesLoop :: "storageSlotsValidator \<Rightarrow> storageSlots \<Rightarrow> storageSlots \<Rightarrow> address
    \<Rightarrow> (accessMode \<times> slot list) list \<Rightarrow> slot option \<times> string list
    \<Rightarrow> (string list \<times> slotError) + (slot option \<times> string list)" where
  "modesLoop v senderSlots entitySlots addr [] st = Inr st"
| "modesLoop v senderSlots entitySlots addr ((mode, slots) # rest) st =
     (case slotsLoop v senderSlots entitySlots addr mode slots st of
        Inl e \<Rightarrow> Inl e
      | Inr st' \<Rightarrow> modesLoop v senderSlots entitySlots addr rest st')"

text \<open>The loop over \<open>EntityAccessMap\<close>; \<open>mustStakeSlot\<close> starts empty for every address.\<close>

fun accessLoop :: "storageSlotsValidator \<Rightarrow> storageSlots \<Rightarrow> storageSlots
    \<Rightarrow> (address \<times> AccessInfo) list \<Rightarrow> string list \<Rightarrow> string list \<times> slotError option" where
  "accessLoop v senderSlots entitySlots [] altMempoolIds = (altMempoolIds, None)"
| "accessLoop v senderSlots entitySlots ((addr, access) # rest) altMempoolIds =
     (if addr = Sender (Op v) \<or> addr = AiMiddlewareAddr v
      then accessLoop v senderSlots entitySlots rest altMempoolIds
      else
        (let accessTypes = [(accessModeRead, map fst (Reads access)),
                            (accessModeWrite, map fst (Writes access))]
         in case modesLoop v senderSlots entitySlots addr accessTypes (None, altMempoolIds) of
              Inl (ids, e) \<Rightarrow> (ids, Some e)
            | Inr (mustStakeSlot, ids) \<Rightarrow>
               (case mustStakeSlot of
                  Some sl \<Rightarrow>
                    if \<not> EntityIsStaked v
                    then (ids, Some (UnstakedAccess (EntityName v) (addr2KnownEntity (Op v) addr) sl))
                    else accessLoop v senderSlots entitySlots rest ids
                | None \<Rightarrow> accessLoop v senderSlots entitySlots rest ids)))"

definition Process :: "address \<Rightarrow> storageSlotsValidator \<Rightarrow> string list \<times> slotError option" where
  "Process rip v =
     (let senderSlots = (case SenderSlots v of None \<Rightarrow> [] | Some s \<Rightarrow> s);
          entitySlots = (case EntitySlots v of None \<Rightarrow> [] | Some s \<Rightarrow> s);
          altMempoolIds = []
      in case contractSizeLoop rip v (EntityContractSizeMap v) of
           Some e \<Rightarrow> (altMempoolIds, Some e)
         | None \<Rightarrow> accessLoop v senderSlots entitySlots (EntityAccessMap v) altMempoolIds)"

section \<open>Submitters (packages builder and relay)\<close>

text \<open>
  Modelled from the spec: \<open>MarkOpIndexForRemoval\<close> of package modules is not among the
  sources. The spec says that a stage may mark an op for removal by its index with a reason,
  that the op is dropped from the batch, and that the batch and a \<open>PendingRemoval\<close> list are
  kept in the context. An index outside the batch changes nothing.
\<close>

definition MarkOpIndexForRemoval :: "BatchHandlerCtx \<Rightarrow> int \<Rightarrow> string \<Rightarrow> BatchHandlerCtx" where
  "MarkOpIndexForRemoval ctx index reason =
     (if 0 \<le> index \<and> nat index < length (Batch ctx)
      then ctx\<lparr> Batch := take (nat index) (Batch ctx) @ drop (Suc (nat index)) (Batch ctx),
                PendingRemoval := PendingRemoval ctx @ [(Batch ctx ! nat index, reason)] \<rparr>
      else ctx)"

text \<open>\<open>transaction.Opts\<close>, without the handles of the signer and of the node.\<close>

record Opts =
  OptsChainID :: int
  OptsAiMiddleware :: address
  OptsBatch :: "AiOperation list"
  OptsBeneficiary :: address
  OptsBaseFee :: "int option"
  OptsTip :: "int option"
  OptsGasPrice :: "int option"
  OptsGasLimit :: nat
  OptsNoSend :: bool
  OptsWaitTimeout :: int

record Transaction =
  TxHash :: string
  RawTxHex :: string

record FlashbotsSendBundleRequest =
  Txs :: "string list"
  BlockNumber :: int

text \<open>
  The collaborators outside the sources, as the answers they give: the node's gas
  estimate (what \<open>transaction.EstimateHandleOpsGas\<close> returns: the estimate, a \<open>FailedOp\<close>
  revert with its op index and reason, an error; the first argument counts the earlier
  calls, since the node may answer differently each time), the current block number,
  \<open>transaction.HandleOps\<close>, the builders' answers to \<open>BroadcastBundle\<close> (one per builder,
  \<open>None\<close> for a nil \<open>Err\<close>), and \<open>transaction.Wait\<close>.
\<close>

record world =
  EstimateHandleOpsGas :: "nat \<Rightarrow> Opts \<Rightarrow> nat \<times> (int \<times> string) option \<times> string option"
  EthBlockNumber :: "string + nat"
  HandleOps :: "Opts \<Rightarrow> string + Transaction"
  BroadcastBundle :: "FlashbotsSendBundleRequest \<Rightarrow> string option list"
  Wait :: "Transaction \<Rightarrow> string option"

text \<open>What a handler does to the outside, in order.\<close>

datatype event =
    EvEstimateGas Opts
  | EvBlockNumber
  | EvHandleOps Opts
  | EvBroadcastBundle FlashbotsSendBundleRequest
  | EvWait Transaction

text \<open>
  The estimation loop of both handlers: \<open>for len(ctx.Batch) > 0\<close>. It returns the error (if
  one), the context, the options and the events. The loop need not end: the node may keep
  reporting a revert at an index that removes nothing.
\<close>

partial_function (option) estimateLoop :: "world \<Rightarrow> nat \<Rightarrow> BatchHandlerCtx \<Rightarrow> Opts \<Rightarrow> event list
    \<Rightarrow> (error option \<times> BatchHandlerCtx \<times> Opts \<times> event list) option" where
  "estimateLoop w n ctx opts evs =
     (if length (Batch ctx) > 0 then
        (case EstimateHandleOpsGas w n opts of (est, revert, err) \<Rightarrow>
           (case err of
              Some e \<Rightarrow> Some (Some (ExternalError e), ctx, opts, evs @ [EvEstimateGas opts])
            | None \<Rightarrow>
               (case revert of
                  Some (opIndex, reason) \<Rightarrow>
                    estimateLoop w (Suc n) (MarkOpIndexForRemoval ctx opIndex reason) opts
                      (evs @ [EvEstimateGas opts])
                | None \<Rightarrow>
                    Some (None, ctx, opts\<lparr>OptsGasLimit := est\<rparr>, evs @ [EvEstimateGas opts]))))
      else Some (None, ctx, opts, evs))"

subsection \<open>Relay\<close>

record Relayer =
  relayBeneficiary :: address
  relayWaitTimeout :: int

text \<open>The options the relayer starts from.\<close>

definition relayOpts :: "Relayer \<Rightarrow> BatchHandlerCtx \<Rightarrow> Opts" where
  "relayOpts r ctx =
     \<lparr> OptsChainID = ChainID ctx, OptsAiMiddleware = AiMiddleware ctx,
       OptsBatch = Batch ctx, OptsBeneficiary = relayBeneficiary r,
       OptsBaseFee = BaseFee ctx, OptsTip = Tip ctx, OptsGasPrice = GasPrice ctx,
       OptsGasLimit = 0, OptsNoSend = False, OptsWaitTimeout = relayWaitTimeout r \<rparr>"

text \<open>
  The handler returns \<open>None\<close> when it does not return (the estimation loop runs forever),
  and otherwise the error (\<open>None\<close> for nil), the context as the handler left it, and the
  events in order.
\<close>

definition relay_SendAiOperation :: "Relayer \<Rightarrow> world \<Rightarrow> BatchHandlerCtx
    \<Rightarrow> (error option \<times> BatchHandlerCtx \<times> event list) option" where
  "relay_SendAiOperation r w ctx =
     (let opts = relayOpts r ctx
      in case estimateLoop w 0 ctx opts [] of
           None \<Rightarrow> None
         | Some (Some err, ctx1, opts1, evs) \<Rightarrow> Some (Some err, ctx1, evs)
         | Some (None, ctx1, opts1, evs) \<Rightarrow>
            if length (Batch ctx1) > 0 then
              (case HandleOps w opts1 of
                 Inl e \<Rightarrow> Some (Some (ExternalError e), ctx1, evs @ [EvHandleOps opts1])
               | Inr txn \<Rightarrow>
                  Some (None, ctx1\<lparr>Data := (''txn_hash'', TxHash txn) # Data ctx1\<rparr>,
                        evs @ [EvHandleOps opts1]))
            else Some (None, ctx1, evs))"

subsection \<open>Searcher\<close>

record BuilderClient =
  beneficiary :: address
  blocksInTheFuture :: int
  waitTimeout :: int

text \<open>The loop that projects the base fee: \<open>for i := 0; i < b.blocksInTheFuture; i++\<close>.
  \<open>big.Int.Div\<close> is Euclidean division, which for the divisor 1000 rounds down.\<close>

function baseFeeLoop :: "int \<Rightarrow> int \<Rightarrow> int \<Rightarrow> int" where
  "baseFeeLoop i n mbf =
     (if i < n then
        (let a = mbf * 1125;
             b = a div 1000
         in baseFeeLoop (i + 1) n (b + 1))
      else mbf)"
  by pat_completeness auto
termination
  by (relation "measure (\<lambda>(i, n, mbf). nat (n - i))") auto

text \<open>With a nil \<open>ctx.BaseFee\<close> the first multiplication panics; with no iteration the
  nil pointer is passed on.\<close>

definition projectBaseFee :: "int \<Rightarrow> int option \<Rightarrow> error + int option" where
  "projectBaseFee n baseFee =
     (case baseFee of
        None \<Rightarrow> if 0 < n then Inl NilPointerPanic else Inr None
      | Some bf \<Rightarrow> Inr (Some (baseFeeLoop 0 n bf)))"

text \<open>
  The broadcast loop: for every target block \<open>nbn + i\<close>, the bundle goes to every builder.
  The state is \<open>(shouldFail, errs)\<close>.
\<close>

fun resultsLoop :: "string option list \<Rightarrow> bool \<times> string list \<Rightarrow> bool \<times> string list" where
  "resultsLoop [] st = st"
| "resultsLoop (result # rest) (shouldFail, errs) =
     (case result of
        Some e \<Rightarrow> resultsLoop rest (shouldFail, errs @ [e])
      | None \<Rightarrow> resultsLoop rest (False, errs))"

definition sendBundleArgs :: "Transaction \<Rightarrow> int \<Rightarrow> int \<Rightarrow> FlashbotsSendBundleRequest" where
  "sendBundleArgs txn nbn i = \<lparr> Txs = [RawTxHex txn], BlockNumber = nbn + i \<rparr>"

function broadcastLoop :: "world \<Rightarrow> Transaction \<Rightarrow> int \<Rightarrow> int \<Rightarrow> int
    \<Rightarrow> (bool \<times> string list) \<times> event list \<Rightarrow> (bool \<times> string list) \<times> event list" where
  "broadcastLoop w txn nbn i n st =
     (if i < n then
        (case st of (flags, evs) \<Rightarrow>
           broadcastLoop w txn nbn (i + 1) n
             (resultsLoop (BroadcastBundle w (sendBundleArgs txn nbn i)) flags,
              evs @ [EvBroadcastBundle (sendBundleArgs txn nbn i)]))
      else st)"
  by pat_completeness auto
termination
  by (relation "measure (\<lambda>(w, txn, nbn, i, n, st). nat (n - i))") auto

text \<open>The options the searcher starts from.\<close>

definition builderOpts :: "BuilderClient \<Rightarrow> BatchHandlerCtx \<Rightarrow> Opts" where
  "builderOpts b ctx =
     \<lparr> OptsChainID = ChainID ctx, OptsAiMiddleware = AiMiddleware ctx,
       OptsBatch = Batch ctx, OptsBeneficiary = beneficiary b,
       OptsBaseFee = BaseFee ctx, OptsTip = Tip ctx, OptsGasPrice = GasPrice ctx,
       OptsGasLimit = 0, OptsNoSend = True, OptsWaitTimeout = waitTimeout b \<rparr>"

definition builder_SendAiOperation :: "BuilderClient \<Rightarrow> world \<Rightarrow> BatchHandlerCtx
    \<Rightarrow> (error option \<times> BatchHandlerCtx \<times> event list) option" where
  "builder_SendAiOperation b w ctx =
     (let opts = builderOpts b ctx
      in case estimateLoop w 0 ctx opts [] of
           None \<Rightarrow> None
         | Some (Some err, ctx1, opts1, evs) \<Rightarrow> Some (Some err, ctx1, evs)
         | Some (None, ctx1, opts1, evs) \<Rightarrow>
            if length (Batch ctx1) = 0 then Some (None, ctx1, evs)
            else
              (case EthBlockNumber w of
                 Inl e \<Rightarrow> Some (Some (ExternalError e), ctx1, evs @ [EvBlockNumber])
               | Inr bn \<Rightarrow>
                  (let nbn = int bn + 1
                   in case projectBaseFee (blocksInTheFuture b) (BaseFee ctx1) of
                        Inl err \<Rightarrow> Some (Some err, ctx1, evs @ [EvBlockNumber])
                      | Inr mbf \<Rightarrow>
                         (let opts2 = opts1\<lparr>OptsBaseFee := mbf\<rparr>
                          in case HandleOps w opts2 of
                               Inl e \<Rightarrow> Some (Some (ExternalError e), ctx1,
                                               evs @ [EvBlockNumber, EvHandleOps opts2])
                             | Inr txn \<Rightarrow>
                                (case broadcastLoop w txn nbn 0 (blocksInTheFuture b)
                                        ((True, []), evs @ [EvBlockNumber, EvHandleOps opts2]) of
                                   ((shouldFail, errs), evs2) \<Rightarrow>
                                     if shouldFail
                                     then Some (Some (ErrFlashbotsBroadcastBundle errs), ctx1, evs2)
                                     else
                                       (case Wait w txn of
                                          Some e \<Rightarrow> Some (Some (ExternalError e), ctx1,
                                                          evs2 @ [EvWait txn])
                                        | None \<Rightarrow>
                                           Some (None,
                                             ctx1\<lparr>Data := (''txn_hash'', TxHash txn) # Data ctx1\<rparr>,
                                             evs2 @ [EvWait txn])))))))"

section \<open>Notions used in the statements\<close>

text \<open>
  For the gas cap: the cost in gas of a byte string at 4 per zero byte and 16 per non-zero
  byte; the static pre-verification gas, which is the value \<open>CalcPreVerificationGas\<close> returns
  with the default overhead (it never fails there, lemma \<open>CalcPreVerificationGas_default\<close>);
  what one operation adds to the running sum of \<open>MaintainGasLimit\<close>,
  \<open>maxGasAvailable - preVerificationGas + staticPVG\<close>; and the running sum after the first
  \<open>n\<close> operations of a batch.
\<close>

definition byteCost :: "byte list \<Rightarrow> int" where
  "byteCost bs = 4 * int (length (filter (\<lambda>b. b = 0) bs))
               + 16 * int (length (filter (\<lambda>b. b \<noteq> 0) bs))"

definition staticPVG :: "AiOperation \<Rightarrow> int" where
  "staticPVG op =
     (case CalcPreVerificationGas NewDefaultOverhead op of
        Inr static \<Rightarrow> static
      | Inl err \<Rightarrow> 0)"

definition opGas :: "AiOperation \<Rightarrow> int" where
  "opGas op = GetMaxGasAvailable op - PreVerificationGas op + staticPVG op"

definition prefixGas :: "nat \<Rightarrow> AiOperation list \<Rightarrow> int" where
  "prefixGas n ops = sum_list (map opGas (take n ops))"

text \<open>The step of the base fee projection in the spec's words:
  \<open>bf \<leftarrow> \<lfloor>bf \<times> 1125 / 1000\<rfloor> + 1\<close>.\<close>

definition baseFeeStep :: "int \<Rightarrow> int" where
  "baseFeeStep bf = bf * 1125 div 1000 + 1"

text \<open>
  The order in which two operations are compared by their static pre-verification gas:
  both computations succeed, and the first value is at most the second.
\<close>

definition pvgLe :: "AiOperation \<Rightarrow> AiOperation \<Rightarrow> bool" where
  "pvgLe op op' =
     (case (CalcPreVerificationGas NewDefaultOverhead op,
            CalcPreVerificationGas NewDefaultOverhead op') of
        (Inr a, Inr b) \<Rightarrow> a \<le> b
      | _ \<Rightarrow> False)"

text \<open>
  For the storage rule of the sender's slots: the condition under which \<open>Process\<close> sets
  \<open>mustStakeSlot\<close> for a slot associated with the sender, the sender's slots as \<open>Process\<close>
  reads them, and the slots an entity accessed at addresses other than the sender and the
  middleware.
\<close>

definition mustStakeForSenderSlot :: "storageSlotsValidator \<Rightarrow> bool" where
  "mustStakeForSenderSlot v =
     ((length (InitCode (Op v)) > 0 \<and> \<not> FactoryIsStaked v)
      \<or> (length (InitCode (Op v)) > 0 \<and> FactoryIsStaked v \<and> EntityAddr v \<noteq> Sender (Op v)))"

definition senderSlotsOf :: "storageSlotsValidator \<Rightarrow> storageSlots" where
  "senderSlotsOf v = (case SenderSlots v of None \<Rightarrow> [] | Some s \<Rightarrow> s)"

definition slotsIn :: "storageSlotsValidator \<Rightarrow> (address \<times> AccessInfo) list \<Rightarrow> slot list" where
  "slotsIn v m =
     concat (map (\<lambda>(addr, access).
                    if addr = Sender (Op v) \<or> addr = AiMiddlewareAddr v then []
                    else map fst (Reads access) @ map fst (Writes access)) m)"

definition accessedSlots :: "storageSlotsValidator \<Rightarrow> slot list" where
  "accessedSlots v = slotsIn v (EntityAccessMap v)"

text \<open>
  For the submitters: an event that is a gas estimate, and a context that differs from
  another only by ops moved from the batch to \<open>PendingRemoval\<close>.
\<close>

fun isEstimate :: "event \<Rightarrow> bool" where
  "isEstimate (EvEstimateGas opts) = True"
| "isEstimate e = False"

definition onlyRemovals :: "BatchHandlerCtx \<Rightarrow> BatchHandlerCtx \<Rightarrow> bool" where
  "onlyRemovals ctx ctx1 =
     (\<exists>removed. ctx1 = ctx\<lparr>Batch := Batch ctx1, PendingRemoval := PendingRemoval ctx @ removed\<rparr>
        \<and> mset (map fst removed) + mset (Batch ctx1) = mset (Batch ctx))"

section \<open>Example inputs\<close>

text \<open>
  An operation whose contribution to the running sum of \<open>MaintainGasLimit\<close> is \<open>g\<close>: its static
  pre-verification gas is 45065, and its own \<open>preVerificationGas\<close> \<open>p\<close> cancels out.
\<close>

definition exOp :: "int \<Rightarrow> int \<Rightarrow> AiOperation" where
  "exOp p g = \<lparr> Sender = 1, Nonce = 0, InitCode = [], CallData = [], CallGasLimit = g - 45065,
     VerificationGasLimit = 0, PreVerificationGas = p, MaxFeePerGas = 0, MaxPriorityFeePerGas = 0,
     PaymasterAndData = [], Signature = [] \<rparr>"

definition exCtx :: "AiOperation list \<Rightarrow> BatchHandlerCtx" where
  "exCtx ops = \<lparr> Batch = ops, PendingRemoval = [], AiMiddleware = 7, ChainID = 1,
     BaseFee = Some 1000, Tip = Some 1, GasPrice = Some 1, Data = [] \<rparr>"

definition fiveOps :: "AiOperation list" where
  "fiveOps = map (\<lambda>p. exOp p 5000000) [1, 2, 3, 4, 5]"

definition tenOps :: "AiOperation list" where
  "tenOps = map (\<lambda>p. exOp p 2000000) [1, 2, 3, 4, 5, 6, 7, 8, 9, 10]"

text \<open>
  A reputation store in which address 1 is throttled (seen 1000, included 60), address 2 is
  banned (seen 1000, included 0) and every other address is ok, and two ingress contexts:
  an op of the throttled sender 1 with five pending ops of that sender, and an op of sender 3
  whose paymaster is the banned address 2.
\<close>

definition exTxn :: txn where
  "exTxn a = (if a = 1 then Inr (1000, 60) else if a = 2 then Inr (1000, 0) else Inr (0, 0))"

definition exThrottledIngress :: AiOpHandlerCtx where
  "exThrottledIngress = \<lparr> AiOp = exOp 0 0,
     pendingSenderOps = [exOp 1 0, exOp 2 0, exOp 3 0, exOp 4 0, exOp 5 0],
     pendingFactoryOps = [], pendingPaymasterOps = [] \<rparr>"

definition exBannedPaymasterIngress :: AiOpHandlerCtx where
  "exBannedPaymasterIngress = \<lparr>
     AiOp = (exOp 0 0)\<lparr> Sender := 3, PaymasterAndData :=
       [0, 0, 0, 0, 0, 0, 0, 0, 0, 0, 0, 0, 0, 0, 0, 0, 0, 0, 0, 2] \<rparr>,
     pendingSenderOps = [], pendingFactoryOps = [], pendingPaymasterOps = [] \<rparr>"

text \<open>
  A validator for a paymaster (address 5) that read slot 105 of the contract at address 9;
  the sender (address 1) has the slot 100, so 105 is associated with the sender. The first
  argument is the op's \<open>initCode\<close>; the factory and the paymaster are not staked.
  \<open>exInitCode\<close> is an \<open>initCode\<close> of the factory at address 4.
\<close>

definition exInitCode :: "byte list" where
  "exInitCode = [0, 0, 0, 0, 0, 0, 0, 0, 0, 0, 0, 0, 0, 0, 0, 0, 0, 0, 0, 4, 96, 128]"

definition exValidator :: "byte list \<Rightarrow> storageSlotsValidator" where
  "exValidator ic = \<lparr>
     Op = (exOp 0 0)\<lparr>InitCode := ic, PaymasterAndData :=
       [0, 0, 0, 0, 0, 0, 0, 0, 0, 0, 0, 0, 0, 0, 0, 0, 0, 0, 0, 5]\<rparr>,
     AiMiddlewareAddr = 7,
     IsRIP7212Supported = False,
     AltMempools = (\<lambda>entity contract sl. []),
     SenderSlots = Some [100],
     FactoryIsStaked = False,
     EntityName = ''paymaster'',
     EntityAddr = 5,
     EntityAccessMap = [(9, \<lparr>Reads = [(105, ''0x01'')], Writes = []\<rparr>)],
     EntityContractSizeMap = [(9, \<lparr>ContractSize = 300, Opcode = ''CALL''\<rparr>)],
     EntitySlots = Some [],
     EntityIsStaked = False \<rparr>"

text \<open>
  A world in which, when \<open>reverts\<close> holds, the node reports a revert of the op at index 0
  on every estimate (and otherwise estimates 500000), the builders answer as listed for
  every target block, and everything else succeeds; a batch of two ops and the context
  that is left when both have been marked for removal.
\<close>

definition exTransaction :: Transaction where
  "exTransaction = \<lparr> TxHash = ''0xabc'', RawTxHex = ''0x02f8'' \<rparr>"

definition exWorld :: "bool \<Rightarrow> string option list \<Rightarrow> world" where
  "exWorld reverts builders = \<lparr>
     EstimateHandleOpsGas =
       (\<lambda>n opts. if reverts then (0, Some (0, ''AA23 reverted''), None) else (500000, None, None)),
     EthBlockNumber = Inr 1,
     HandleOps = (\<lambda>opts. Inr exTransaction),
     BroadcastBundle = (\<lambda>req. builders),
     Wait = (\<lambda>txn. None) \<rparr>"

definition exTwoOps :: BatchHandlerCtx where
  "exTwoOps = exCtx [exOp 1 0, exOp 2 0]"

definition exTwoOpsRemoved :: BatchHandlerCtx where
  "exTwoOpsRemoved = exTwoOps\<lparr> Batch := [],
     PendingRemoval := [(exOp 1 0, ''AA23 reverted''), (exOp 2 0, ''AA23 reverted'')] \<rparr>"

definition exBuilderClient :: BuilderClient where
  "exBuilderClient = \<lparr> beneficiary = 8, blocksInTheFuture = 1, waitTimeout = 72 \<rparr>"

definition exRelayer :: Relayer where
  "exRelayer = \<lparr> relayBeneficiary = 8, relayWaitTimeout = 30 \<rparr>"

section \<open>Properties of the gas overhead\<close>

lemma be_bytes_numeral:
  "be_bytes (numeral k) v = be_bytes (pred_numeral k) (v div 256) @ [of_nat (v mod 256)]"
proof -
  have "numeral k = Suc (pred_numeral k)" by (rule numeral_eq_Suc)
  then show ?thesis by (simp only: be_bytes.simps)
qed

lemma be_bytes_1: "be_bytes 1 v = [of_nat (v mod 256)]"
  by (simp only: One_nat_def be_bytes.simps append_Nil)

lemma length_be_bytes: "length (be_bytes n v) = n"
  by (induction n arbitrary: v) simp_all

lemma default_fields:
  "intrinsicFixed NewDefaultOverhead = 21000"
  "minBundleSize NewDefaultOverhead = 1"
  "calcPVGFunc NewDefaultOverhead = calcPVGFuncNoop"
  "sanitizedPVG NewDefaultOverhead = 100000"
  "sanitizedVGL NewDefaultOverhead = 1000000"
  "sanitizedCGL NewDefaultOverhead = 1000000"
  by (simp_all add: NewDefaultOverhead_def)

lemma callDataCostLoop_default:
  "callDataCostLoop NewDefaultOverhead bs c = c + real_of_int (byteCost bs)"
  by (induction bs arbitrary: c) (simp_all add: byteCost_def NewDefaultOverhead_def)

lemma math_Round_of_int: "math_Round (real_of_int k) = k"
  unfolding math_Round_def by (auto simp: floor_add_int)

lemma floor_words: "\<lfloor>real (n + 31) / 32\<rfloor> = int ((n + 31) div 32)"
proof -
  have "real (n + 31) / 32 = real_of_int (int (n + 31)) / real_of_int 32" by simp
  then have "\<lfloor>real (n + 31) / 32\<rfloor> = int (n + 31) div 32"
    by (simp only: floor_divide_of_int_eq)
  then show ?thesis by (simp add: zdiv_int)
qed

lemma CalcCallDataCost_default:
  "CalcCallDataCost NewDefaultOverhead op = real_of_int (byteCost (Pack op))"
  by (simp add: CalcCallDataCost_def callDataCostLoop_default)

lemma CalcPerAiOpCost_default:
  "CalcPerAiOpCost NewDefaultOverhead op
     = real_of_int (25 * int ((length (Pack op) + 31) div 32) + 22874)"
  unfolding CalcPerAiOpCost_def Let_def floor_words
  by (simp add: NewDefaultOverhead_def)

text \<open>With the default overhead the computation never fails; its value in integer
  arithmetic.\<close>

lemma CalcPreVerificationGas_closed:
  "CalcPreVerificationGas NewDefaultOverhead op =
     Inr (21000 + byteCost (Pack (sanitize NewDefaultOverhead op op)) + 22874
          + 25 * int ((length (Pack (sanitize NewDefaultOverhead op op)) + 31) div 32))"
proof -
  let ?tmp = "sanitize NewDefaultOverhead op op"
  define k where "k = 21000 + byteCost (Pack ?tmp) + 22874
          + 25 * int ((length (Pack ?tmp) + 31) div 32)"
  have "intrinsicFixed NewDefaultOverhead / minBundleSize NewDefaultOverhead
          + CalcCallDataCost NewDefaultOverhead ?tmp + CalcPerAiOpCost NewDefaultOverhead ?tmp
      = real_of_int k"
    by (simp add: CalcCallDataCost_default CalcPerAiOpCost_default default_fields(1,2) k_def)
  then have "CalcPreVerificationGas NewDefaultOverhead op = Inr k"
    unfolding CalcPreVerificationGas_def ToMap_def New_def Let_def
    by (simp add: default_fields(3) calcPVGFuncNoop_def math_Round_of_int)
  then show ?thesis by (simp only: k_def)
qed

lemma staticPVG_closed:
  "staticPVG op = 21000 + byteCost (Pack (sanitize NewDefaultOverhead op op)) + 22874
          + 25 * int ((length (Pack (sanitize NewDefaultOverhead op op)) + 31) div 32)"
  by (simp add: staticPVG_def CalcPreVerificationGas_closed)

lemma CalcPreVerificationGas_default:
  "CalcPreVerificationGas NewDefaultOverhead op = Inr (staticPVG op)"
  by (simp add: staticPVG_def CalcPreVerificationGas_closed)

lemma staticPVG_exOp: "staticPVG (exOp p g) = 45065"
  by (simp add: staticPVG_closed exOp_def sanitize_def default_fields Pack_def LeftPadBytes_def
      address_bytes_def RightPad32_def padLen_def uint256_bytes_def be_bytes_numeral be_bytes_1
      byteCost_def)

lemma opGas_exOp: "opGas (exOp p g) = g"
  by (simp add: opGas_def staticPVG_exOp GetMaxGasAvailable_def GetPaymaster_def)
     (simp add: exOp_def)

section \<open>The static pre-verification gas: what it depends on\<close>

lemma sanitize_updates:
  "length sig' = length (Signature op) \<Longrightarrow>
   sanitize ov (op\<lparr>PreVerificationGas := pvg', VerificationGasLimit := vgl', CallGasLimit := cgl',
                   Signature := sig'\<rparr>)
               (op\<lparr>PreVerificationGas := pvg', VerificationGasLimit := vgl', CallGasLimit := cgl',
                   Signature := sig'\<rparr>)
   = sanitize ov op op"
  by (simp add: sanitize_def)

text \<open>
  C9. \<open>CalcPreVerificationGas\<close> does not depend on the op's \<open>preVerificationGas\<close>,
  \<open>verificationGasLimit\<close> and \<open>callGasLimit\<close> nor on the bytes of its signature: two ops that
  differ only in those fields, with signatures of the same length, give the same result
  (value or error), because the fields are overwritten before the cost is computed. This
  holds for every overhead, the default one with the no-op PVG function included.
\<close>

theorem CalcPreVerificationGas_sanitized:
  assumes "length sig' = length (Signature op)"
  shows "CalcPreVerificationGas ov
           (op\<lparr>PreVerificationGas := pvg', VerificationGasLimit := vgl', CallGasLimit := cgl',
               Signature := sig'\<rparr>)
         = CalcPreVerificationGas ov op"
  unfolding CalcPreVerificationGas_def ToMap_def
  by (simp add: sanitize_updates [OF assms])

theorem CalcPreVerificationGas_sanitized_witness:
  "length [9, 8, 7 :: byte] = length (Signature ((exOp 1 5000000)\<lparr>Signature := [1, 2, 3]\<rparr>))
   \<and> CalcPreVerificationGas NewDefaultOverhead
        ((exOp 1 5000000)\<lparr>Signature := [1, 2, 3]\<rparr>
           \<lparr>PreVerificationGas := 77, VerificationGasLimit := 88, CallGasLimit := 99,
            Signature := [9, 8, 7]\<rparr>)
      = CalcPreVerificationGas NewDefaultOverhead ((exOp 1 5000000)\<lparr>Signature := [1, 2, 3]\<rparr>)"
  using CalcPreVerificationGas_sanitized
    [where sig' = "[9, 8, 7]" and op = "(exOp 1 5000000)\<lparr>Signature := [1, 2, 3]\<rparr>"
       and ov = NewDefaultOverhead and pvg' = 77 and vgl' = 88 and cgl' = 99]
  by simp

section \<open>The static pre-verification gas: monotonicity\<close>

lemma byteCost_append: "byteCost (a @ b) = byteCost a + byteCost b"
  by (simp add: byteCost_def)

lemma byteCost_replicate_zero: "byteCost (replicate n 0) = 4 * int n"
  by (simp add: byteCost_def)

lemma byteCost_ge: "4 * int (length bs) \<le> byteCost bs"
proof -
  have "length bs = length (filter (\<lambda>b. b = 0) bs) + length (filter (\<lambda>b. b \<noteq> 0) bs)"
    by (induction bs) simp_all
  then show ?thesis by (simp add: byteCost_def)
qed

lemma padLen_less: "padLen n < 32"
  by (simp add: padLen_def)

lemma padded_multiple: "\<exists>k. n + padLen n = 32 * k"
proof -
  define q where "q = n div 32"
  define r where "r = n mod 32"
  have n: "n = 32 * q + r" by (simp add: q_def r_def)
  have r: "r < 32" by (simp add: r_def)
  show ?thesis
  proof (cases "r = 0")
    case True
    then have "padLen n = 0" by (simp add: padLen_def r_def [symmetric])
    with n True have "n + padLen n = 32 * q" by simp
    then show ?thesis by (rule exI)
  next
    case False
    with r have "(32 - r) mod 32 = 32 - r" by (intro mod_less) simp
    then have "padLen n = 32 - r" by (simp add: padLen_def r_def [symmetric])
    with n r have "n + padLen n = 32 * (q + 1)" by simp
    then show ?thesis by (rule exI)
  qed
qed

lemma padLen_step: "n + padLen n \<le> n + m + padLen (n + m)"
proof -
  obtain a where a: "n + padLen n = 32 * a" using padded_multiple by blast
  obtain b where b: "n + m + padLen (n + m) = 32 * b" using padded_multiple by blast
  have "n + padLen n < n + 32" using padLen_less [of n] by simp
  also have "\<dots> \<le> n + m + padLen (n + m) + 32" by simp
  finally have "32 * a < 32 * b + 32" by (simp only: a b)
  then have "a \<le> b" by simp
  with a b show ?thesis by simp
qed

lemma RightPad32_mono_length:
  "length (RightPad32 bs) \<le> length (RightPad32 (bs @ ext))"
  using padLen_step [of "length bs" "length ext"]
  by (simp add: RightPad32_def)

lemma RightPad32_mono_cost:
  "byteCost (RightPad32 bs) \<le> byteCost (RightPad32 (bs @ ext))"
proof -
  have "int (length bs + padLen (length bs))
      \<le> int (length bs + length ext + padLen (length bs + length ext))"
    using padLen_step [of "length bs" "length ext"] by (simp only: of_nat_le_iff)
  then have "4 * int (padLen (length bs))
      \<le> 4 * int (length ext) + 4 * int (padLen (length bs + length ext))"
    by simp
  also have "\<dots> \<le> byteCost ext + 4 * int (padLen (length bs + length ext))"
    using byteCost_ge [of ext] by simp
  finally show ?thesis
    by (simp add: RightPad32_def byteCost_append byteCost_replicate_zero)
qed

lemma staticPVG_le_of_pack:
  assumes "byteCost (Pack (sanitize NewDefaultOverhead op op))
         \<le> byteCost (Pack (sanitize NewDefaultOverhead op' op'))"
    and "length (Pack (sanitize NewDefaultOverhead op op))
         \<le> length (Pack (sanitize NewDefaultOverhead op' op'))"
  shows "staticPVG op \<le> staticPVG op'"
proof -
  from assms(2) have "(length (Pack (sanitize NewDefaultOverhead op op)) + 31) div 32
      \<le> (length (Pack (sanitize NewDefaultOverhead op' op')) + 31) div 32"
    by (intro div_le_mono) simp
  then have "int ((length (Pack (sanitize NewDefaultOverhead op op)) + 31) div 32)
      \<le> int ((length (Pack (sanitize NewDefaultOverhead op' op')) + 31) div 32)"
    by (simp only: of_nat_le_iff)
  with assms(1) show ?thesis
    by (simp add: staticPVG_closed Let_def)
qed

lemma pvgLe_iff: "pvgLe op op' \<longleftrightarrow> staticPVG op \<le> staticPVG op'"
  by (simp add: pvgLe_def CalcPreVerificationGas_default)

lemma replicate_ext: "n \<le> m \<Longrightarrow> replicate m (x::byte) = replicate n x @ replicate (m - n) x"
  by (simp add: replicate_add [symmetric])

lemma pvgLe_InitCode: "pvgLe op (op\<lparr>InitCode := InitCode op @ ext\<rparr>)"
  unfolding pvgLe_iff
  by (rule staticPVG_le_of_pack)
     (simp_all add: Pack_def sanitize_def byteCost_append RightPad32_mono_cost RightPad32_mono_length)

lemma pvgLe_CallData: "pvgLe op (op\<lparr>CallData := CallData op @ ext\<rparr>)"
  unfolding pvgLe_iff
  by (rule staticPVG_le_of_pack)
     (simp_all add: Pack_def sanitize_def byteCost_append RightPad32_mono_cost RightPad32_mono_length)

lemma pvgLe_PaymasterAndData: "pvgLe op (op\<lparr>PaymasterAndData := PaymasterAndData op @ ext\<rparr>)"
  unfolding pvgLe_iff
  by (rule staticPVG_le_of_pack)
     (simp_all add: Pack_def sanitize_def byteCost_append RightPad32_mono_cost RightPad32_mono_length)

lemma pvgLe_Signature:
  assumes "length (Signature op) \<le> length sig'"
  shows "pvgLe op (op\<lparr>Signature := sig'\<rparr>)"
proof -
  have r: "replicate (length sig') (1::byte)
      = replicate (length (Signature op)) 1 @ replicate (length sig' - length (Signature op)) 1"
    using assms by (rule replicate_ext)
  show ?thesis
    unfolding pvgLe_iff
    by (rule staticPVG_le_of_pack)
       (simp_all add: Pack_def sanitize_def byteCost_append r RightPad32_mono_cost
          RightPad32_mono_length del: replicate_append_same)
qed


lemma staticPVG_callData_1: "staticPVG ((exOp 0 0)\<lparr>CallData := [1]\<rparr>) = 45230"
  by (simp add: staticPVG_closed exOp_def sanitize_def default_fields Pack_def LeftPadBytes_def
      address_bytes_def RightPad32_def padLen_def uint256_bytes_def be_bytes_numeral be_bytes_1
      byteCost_def)

lemma staticPVG_callData_00: "staticPVG ((exOp 0 0)\<lparr>CallData := [0, 0]\<rparr>) = 45218"
  by (simp add: staticPVG_closed exOp_def sanitize_def default_fields Pack_def LeftPadBytes_def
      address_bytes_def RightPad32_def padLen_def uint256_bytes_def be_bytes_numeral be_bytes_1
      byteCost_def)

text \<open>
  C8 (as amended). The static pre-verification gas (\<open>CalcPreVerificationGas\<close> with the default
  overhead and the no-op PVG function) never fails, does not decrease when bytes are appended
  to \<open>initCode\<close>, to \<open>callData\<close> or to \<open>paymasterAndData\<close>, and is monotone non-decreasing in
  the length of the signature, all other fields held fixed. (For the first three fields the
  value depends on the bytes, a zero byte costing 4 and any other 16, so it is not a function
  of the length alone.)
\<close>

theorem staticPVG_monotone:
  "pvgLe op (op\<lparr>InitCode := InitCode op @ ext\<rparr>)
   \<and> pvgLe op (op\<lparr>CallData := CallData op @ ext\<rparr>)
   \<and> pvgLe op (op\<lparr>PaymasterAndData := PaymasterAndData op @ ext\<rparr>)
   \<and> (length (Signature op) \<le> length sig' \<longrightarrow> pvgLe op (op\<lparr>Signature := sig'\<rparr>))"
proof (intro conjI impI)
  show "pvgLe op (op\<lparr>InitCode := InitCode op @ ext\<rparr>)"
    by (rule pvgLe_InitCode)
  show "pvgLe op (op\<lparr>CallData := CallData op @ ext\<rparr>)"
    by (rule pvgLe_CallData)
  show "pvgLe op (op\<lparr>PaymasterAndData := PaymasterAndData op @ ext\<rparr>)"
    by (rule pvgLe_PaymasterAndData)
next
  assume "length (Signature op) \<le> length sig'"
  then show "pvgLe op (op\<lparr>Signature := sig'\<rparr>)"
    by (rule pvgLe_Signature)
qed

theorem staticPVG_monotone_witness:
  "pvgLe (exOp 0 0) ((exOp 0 0)\<lparr>InitCode := [0, 7]\<rparr>)
   \<and> pvgLe (exOp 0 0) ((exOp 0 0)\<lparr>CallData := [0, 7]\<rparr>)
   \<and> pvgLe (exOp 0 0) ((exOp 0 0)\<lparr>PaymasterAndData := [0, 7]\<rparr>)
   \<and> length (Signature (exOp 0 0)) \<le> length [5 :: byte]
   \<and> pvgLe (exOp 0 0) ((exOp 0 0)\<lparr>Signature := [5]\<rparr>)"
  using staticPVG_monotone [of "exOp 0 0" "[0, 7]" "[5]"]
  by (simp add: exOp_def)

text \<open>
  The claim as stated fails: two ops that differ only in \<open>callData\<close>, of lengths 1 and 2, have
  the static values 45230 and 45218.
\<close>

theorem staticPVG_monotone_counterexample:
  "length (CallData ((exOp 0 0)\<lparr>CallData := [1]\<rparr>))
     \<le> length (CallData ((exOp 0 0)\<lparr>CallData := [0, 0]\<rparr>))
   \<and> (exOp 0 0)\<lparr>CallData := [0, 0]\<rparr> = ((exOp 0 0)\<lparr>CallData := [1]\<rparr>)\<lparr>CallData := [0, 0]\<rparr>
   \<and> CalcPreVerificationGas NewDefaultOverhead ((exOp 0 0)\<lparr>CallData := [1]\<rparr>) = Inr 45230
   \<and> CalcPreVerificationGas NewDefaultOverhead ((exOp 0 0)\<lparr>CallData := [0, 0]\<rparr>) = Inr 45218
   \<and> \<not> pvgLe ((exOp 0 0)\<lparr>CallData := [1]\<rparr>) ((exOp 0 0)\<lparr>CallData := [0, 0]\<rparr>)"
  by (simp add: pvgLe_iff CalcPreVerificationGas_default staticPVG_callData_1 staticPVG_callData_00)

section \<open>MaintainGasLimit\<close>

lemma gasLimitLoop_step:
  "gasLimitLoop mx (op # ops) bat sm =
     (if sm + opGas op \<ge> mx then Inr bat else gasLimitLoop mx ops (bat @ [op]) (sm + opGas op))"
  by (simp add: CalcPreVerificationGas_default opGas_def Let_def)

declare gasLimitLoop.simps(2) [simp del]

lemma prefixGas_Cons: "prefixGas (Suc j) (op # ops) = opGas op + prefixGas j ops"
  by (simp add: prefixGas_def)

lemma gasLimitLoop_char:
  "\<exists>k \<le> length ops.
      gasLimitLoop mx ops bat sm = Inr (bat @ take k ops)
    \<and> (\<forall>j < k. sm + prefixGas (Suc j) ops < mx)
    \<and> (k < length ops \<longrightarrow> sm + prefixGas (Suc k) ops \<ge> mx)"
proof (induction ops arbitrary: bat sm)
  case Nil
  then show ?case by simp
next
  case (Cons op ops)
  show ?case
  proof (cases "sm + opGas op \<ge> mx")
    case True
    then have "(0::nat) \<le> length (op # ops) \<and>
          gasLimitLoop mx (op # ops) bat sm = Inr (bat @ take 0 (op # ops))
        \<and> (\<forall>j < (0::nat). sm + prefixGas (Suc j) (op # ops) < mx)
        \<and> ((0::nat) < length (op # ops) \<longrightarrow> sm + prefixGas (Suc 0) (op # ops) \<ge> mx)"
      by (simp add: gasLimitLoop_step prefixGas_def)
    then show ?thesis by (rule exI [of _ "0::nat"])
  next
    case False
    from Cons.IH [of "bat @ [op]" "sm + opGas op"] obtain k where k:
      "k \<le> length ops"
      "gasLimitLoop mx ops (bat @ [op]) (sm + opGas op) = Inr ((bat @ [op]) @ take k ops)"
      "\<forall>j < k. sm + opGas op + prefixGas (Suc j) ops < mx"
      "k < length ops \<longrightarrow> sm + opGas op + prefixGas (Suc k) ops \<ge> mx"
      by blast
    have a: "gasLimitLoop mx (op # ops) bat sm = Inr (bat @ take (Suc k) (op # ops))"
      using False k(2) by (simp add: gasLimitLoop_step)
    have b: "\<forall>j < Suc k. sm + prefixGas (Suc j) (op # ops) < mx"
    proof (intro allI impI)
      fix j assume "j < Suc k"
      show "sm + prefixGas (Suc j) (op # ops) < mx"
      proof (cases j)
        case 0
        then show ?thesis using False by (simp add: prefixGas_def)
      next
        case (Suc j')
        then have "j' < k" using \<open>j < Suc k\<close> by simp
        then show ?thesis using k(3) Suc by (simp add: prefixGas_Cons add.assoc)
      qed
    qed
    have c: "Suc k < length (op # ops) \<longrightarrow> sm + prefixGas (Suc (Suc k)) (op # ops) \<ge> mx"
      using k(4) by (simp add: prefixGas_Cons add.assoc)
    from k(1) have d: "Suc k \<le> length (op # ops)" by simp
    from a b c d have "Suc k \<le> length (op # ops)
        \<and> gasLimitLoop mx (op # ops) bat sm = Inr (bat @ take (Suc k) (op # ops))
        \<and> (\<forall>j < Suc k. sm + prefixGas (Suc j) (op # ops) < mx)
        \<and> (Suc k < length (op # ops) \<longrightarrow> sm + prefixGas (Suc (Suc k)) (op # ops) \<ge> mx)"
      by (intro conjI)
    then show ?thesis by (rule exI [of _ "Suc k"])
  qed
qed

lemma MaintainGasLimit_char:
  "\<exists>k \<le> length (Batch ctx).
      MaintainGasLimit mx ctx = Inr (ctx\<lparr>Batch := take k (Batch ctx)\<rparr>)
    \<and> (\<forall>j < k. prefixGas (Suc j) (Batch ctx) < mx)
    \<and> (k < length (Batch ctx) \<longrightarrow> prefixGas (Suc k) (Batch ctx) \<ge> mx)"
proof -
  from gasLimitLoop_char [of "Batch ctx" mx "[]" 0] obtain k where k:
    "k \<le> length (Batch ctx)"
    "gasLimitLoop mx (Batch ctx) [] 0 = Inr (take k (Batch ctx))"
    "\<forall>j < k. prefixGas (Suc j) (Batch ctx) < mx"
    "k < length (Batch ctx) \<longrightarrow> prefixGas (Suc k) (Batch ctx) \<ge> mx"
    by auto
  from k(2) have "MaintainGasLimit mx ctx = Inr (ctx\<lparr>Batch := take k (Batch ctx)\<rparr>)"
    by (simp add: MaintainGasLimit_def)
  with k(1,3,4) have "k \<le> length (Batch ctx)
    \<and> MaintainGasLimit mx ctx = Inr (ctx\<lparr>Batch := take k (Batch ctx)\<rparr>)
    \<and> (\<forall>j < k. prefixGas (Suc j) (Batch ctx) < mx)
    \<and> (k < length (Batch ctx) \<longrightarrow> prefixGas (Suc k) (Batch ctx) \<ge> mx)"
    by (intro conjI)
  then show ?thesis by (rule exI [of _ k])
qed

lemma prefixGas_uniform:
  "\<forall>op \<in> set ops. opGas op = g \<Longrightarrow> n \<le> length ops \<Longrightarrow> prefixGas n ops = int n * g"
proof (induction ops arbitrary: n)
  case Nil
  then show ?case by (simp add: prefixGas_def)
next
  case (Cons op ops)
  show ?case
  proof (cases n)
    case 0
    then show ?thesis by (simp add: prefixGas_def)
  next
    case (Suc m)
    with Cons.prems have "m \<le> length ops" "\<forall>op \<in> set ops. opGas op = g" "opGas op = g"
      by simp_all
    with Cons.IH [of m] Suc show ?thesis
      by (simp add: prefixGas_Cons algebra_simps)
  qed
qed

text \<open>A batch of \<open>n\<close> operations that each add \<open>g\<close>: the walk keeps the first \<open>k\<close> when
  \<open>k * g\<close> is below the cap and \<open>(k + 1) * g\<close> reaches it.\<close>

lemma MaintainGasLimit_uniform:
  assumes u: "\<forall>op \<in> set (Batch ctx). opGas op = g"
    and k: "k < length (Batch ctx)"
    and below: "int k * g < mx" and reach: "(int k + 1) * g \<ge> mx" and pos: "0 < g"
  shows "MaintainGasLimit mx ctx = Inr (ctx\<lparr>Batch := take k (Batch ctx)\<rparr>)"
proof -
  from MaintainGasLimit_char [of ctx mx] obtain k' where k':
    "k' \<le> length (Batch ctx)"
    "MaintainGasLimit mx ctx = Inr (ctx\<lparr>Batch := take k' (Batch ctx)\<rparr>)"
    "\<forall>j < k'. prefixGas (Suc j) (Batch ctx) < mx"
    "k' < length (Batch ctx) \<longrightarrow> prefixGas (Suc k') (Batch ctx) \<ge> mx"
    by blast
  have "\<not> k < k'"
  proof
    assume "k < k'"
    with k'(3) have "prefixGas (Suc k) (Batch ctx) < mx" by blast
    moreover have "prefixGas (Suc k) (Batch ctx) = int (Suc k) * g"
      using u k by (intro prefixGas_uniform) simp_all
    ultimately show False using reach by (simp add: algebra_simps)
  qed
  moreover have "\<not> k' < k"
  proof
    assume lt: "k' < k"
    with k k'(4) have "prefixGas (Suc k') (Batch ctx) \<ge> mx" by simp
    moreover have "prefixGas (Suc k') (Batch ctx) = int (Suc k') * g"
      using u k lt by (intro prefixGas_uniform) simp_all
    moreover have "int (Suc k') * g \<le> int k * g"
      using lt pos by (intro mult_right_mono) simp_all
    ultimately show False using below by simp
  qed
  ultimately have "k' = k" by simp
  with k'(2) show ?thesis by simp
qed

text \<open>
  C1. For every batch, \<open>MaintainGasLimit\<close> returns without an error and keeps a prefix of the
  batch: every op it keeps left the running sum of
  \<open>maxGasAvailable - preVerificationGas + staticPVG\<close> below \<open>maxBatchGasLimit\<close>, and the
  first op it leaves out is the one at which the running sum reached the limit. With the
  limit 18,000,000 and five ops that each add 5,000,000, the batch is the first three ops.
\<close>

theorem MaintainGasLimit_walk:
  "(\<exists>k \<le> length (Batch ctx).
       MaintainGasLimit maxBatchGasLimit ctx = Inr (ctx\<lparr>Batch := take k (Batch ctx)\<rparr>)
     \<and> (\<forall>j < k. prefixGas (Suc j) (Batch ctx) < maxBatchGasLimit)
     \<and> (k < length (Batch ctx) \<longrightarrow> prefixGas (Suc k) (Batch ctx) \<ge> maxBatchGasLimit))
   \<and> (length (Batch ctx) = 5 \<and> (\<forall>op \<in> set (Batch ctx). opGas op = 5000000)
        \<longrightarrow> MaintainGasLimit 18000000 ctx = Inr (ctx\<lparr>Batch := take 3 (Batch ctx)\<rparr>))"
proof (intro conjI impI)
  show "\<exists>k \<le> length (Batch ctx).
       MaintainGasLimit maxBatchGasLimit ctx = Inr (ctx\<lparr>Batch := take k (Batch ctx)\<rparr>)
     \<and> (\<forall>j < k. prefixGas (Suc j) (Batch ctx) < maxBatchGasLimit)
     \<and> (k < length (Batch ctx) \<longrightarrow> prefixGas (Suc k) (Batch ctx) \<ge> maxBatchGasLimit)"
    by (rule MaintainGasLimit_char)
next
  assume "length (Batch ctx) = 5 \<and> (\<forall>op \<in> set (Batch ctx). opGas op = 5000000)"
  then show "MaintainGasLimit 18000000 ctx = Inr (ctx\<lparr>Batch := take 3 (Batch ctx)\<rparr>)"
    by (intro MaintainGasLimit_uniform [where g = 5000000]) simp_all
qed

theorem MaintainGasLimit_walk_witness:
  "length (Batch (exCtx fiveOps)) = 5
   \<and> map opGas (Batch (exCtx fiveOps)) = [5000000, 5000000, 5000000, 5000000, 5000000]
   \<and> MaintainGasLimit 18000000 (exCtx fiveOps)
       = Inr (exCtx [exOp 1 5000000, exOp 2 5000000, exOp 3 5000000])"
  using MaintainGasLimit_walk [of "exCtx fiveOps" 0]
  by (simp add: exCtx_def fiveOps_def opGas_exOp)

text \<open>
  C2 (as amended). With the limit 18,000,000 and ten ops that each add 2,000,000,
  \<open>MaintainGasLimit\<close> leaves the first eight ops in the batch: the ninth brings the running
  sum to 18,000,000, which reaches the limit, so the ninth and the tenth are left out.
\<close>

theorem MaintainGasLimit_ten_ops:
  assumes "length (Batch ctx) = 10" and "\<forall>op \<in> set (Batch ctx). opGas op = 2000000"
  shows "MaintainGasLimit 18000000 ctx = Inr (ctx\<lparr>Batch := take 8 (Batch ctx)\<rparr>)"
  using assms by (intro MaintainGasLimit_uniform [where g = 2000000]) simp_all

theorem MaintainGasLimit_ten_ops_witness:
  "length (Batch (exCtx tenOps)) = 10
   \<and> map opGas (Batch (exCtx tenOps)) = replicate 10 2000000
   \<and> MaintainGasLimit 18000000 (exCtx tenOps) = Inr (exCtx (take 8 tenOps))"
  using MaintainGasLimit_ten_ops [of "exCtx tenOps"]
  by (simp add: exCtx_def tenOps_def opGas_exOp eval_nat_numeral)

text \<open>The claim as stated fails: on ten ops that each add 2,000,000 the batch that is left
  has eight ops, not nine.\<close>

theorem MaintainGasLimit_ten_ops_counterexample:
  "map opGas (Batch (exCtx tenOps)) = replicate 10 2000000
   \<and> MaintainGasLimit 18000000 (exCtx tenOps) \<noteq> Inr (exCtx (take 9 tenOps))
   \<and> MaintainGasLimit 18000000 (exCtx tenOps) = Inr (exCtx (take 8 tenOps))"
proof -
  have u: "\<forall>op \<in> set (Batch (exCtx tenOps)). opGas op = 2000000"
    by (simp add: exCtx_def tenOps_def opGas_exOp)
  have "MaintainGasLimit 18000000 (exCtx tenOps)
      = Inr ((exCtx tenOps)\<lparr>Batch := take 8 (Batch (exCtx tenOps))\<rparr>)"
    using u by (intro MaintainGasLimit_uniform [where g = 2000000]) (simp_all add: exCtx_def tenOps_def)
  then have r: "MaintainGasLimit 18000000 (exCtx tenOps) = Inr (exCtx (take 8 tenOps))"
    by (simp add: exCtx_def)
  have "exCtx (take 8 tenOps) \<noteq> exCtx (take 9 tenOps)"
  proof
    assume "exCtx (take 8 tenOps) = exCtx (take 9 tenOps)"
    then have "Batch (exCtx (take 8 tenOps)) = Batch (exCtx (take 9 tenOps))" by simp
    then have "length (take 8 tenOps) = length (take 9 tenOps)" by (simp add: exCtx_def)
    then show False by (simp add: tenOps_def)
  qed
  with r u show ?thesis
    by (simp add: exCtx_def tenOps_def opGas_exOp eval_nat_numeral)
qed

section \<open>The projected base fee of the searcher\<close>

lemma baseFeeLoop_unfold:
  "baseFeeLoop i n mbf = (if i < n then baseFeeLoop (i + 1) n (baseFeeStep mbf) else mbf)"
  by (subst baseFeeLoop.simps) (simp add: Let_def baseFeeStep_def)

declare baseFeeLoop.simps [simp del]

lemma baseFeeLoop_iter:
  "baseFeeLoop i n mbf = (baseFeeStep ^^ nat (n - i)) mbf"
proof (induction i n mbf rule: baseFeeLoop.induct)
  case (1 i n mbf)
  show ?case
  proof (cases "i < n")
    case True
    then have "nat (n - i) = Suc (nat (n - (i + 1)))" by simp
    then have fp: "(baseFeeStep ^^ nat (n - i)) mbf
        = (baseFeeStep ^^ nat (n - (i + 1))) (baseFeeStep mbf)"
      by (simp only: funpow_Suc_right o_apply)
    have e: "mbf * 1125 div 1000 + 1 = baseFeeStep mbf"
      by (simp add: baseFeeStep_def)
    have ih: "baseFeeLoop (i + 1) n (baseFeeStep mbf)
        = (baseFeeStep ^^ nat (n - (i + 1))) (baseFeeStep mbf)"
      using "1" [OF True refl refl] by (simp only: e)
    have "baseFeeLoop i n mbf = baseFeeLoop (i + 1) n (baseFeeStep mbf)"
      using True by (subst baseFeeLoop_unfold) simp
    with ih fp show ?thesis by simp
  next
    case False
    then show ?thesis by (subst baseFeeLoop_unfold) simp
  qed
qed

lemma baseFeeLoop_example: "baseFeeLoop 0 6 1000 = 2032"
  by (simp add: baseFeeLoop_unfold baseFeeStep_def)

text \<open>
  C4 (as amended). The searcher computes the projected base fee by applying
  \<open>bf \<leftarrow> \<lfloor>bf \<times> 1125 / 1000\<rfloor> + 1\<close> exactly \<open>blocksInTheFuture\<close> times to the current base
  fee (not at all when \<open>blocksInTheFuture\<close> is not positive); with \<open>blocksInTheFuture = 6\<close> and
  the base fee 1000 the projected base fee is 2032
  (1000, 1126, 1267, 1426, 1605, 1806, 2032).
\<close>

theorem projectBaseFee_iterates:
  "projectBaseFee n (Some bf) = Inr (Some ((baseFeeStep ^^ nat n) bf))
   \<and> projectBaseFee 6 (Some 1000) = Inr (Some 2032)"
  using baseFeeLoop_iter [of 0 n bf] by (simp add: projectBaseFee_def baseFeeLoop_example)

text \<open>The value 2028 of the claim is not what the loop computes.\<close>

theorem projectBaseFee_counterexample:
  "projectBaseFee 6 (Some 1000) \<noteq> Inr (Some 2028)"
  by (simp add: projectBaseFee_def baseFeeLoop_example)

section \<open>Reputation: CheckStatus\<close>

lemma checkSenderStatus_banned:
  "getStatus t (Sender (AiOp ctx)) rc = Inr banned \<Longrightarrow>
   checkSenderStatus rc t ctx
     = Some (RPCError BANNED_OR_THROTTLED_ENTITY (BannedEntity (Sender (AiOp ctx))))"
  by (simp add: checkSenderStatus_def)

lemma checkFactoryStatus_banned:
  "GetFactory (AiOp ctx) \<noteq> zero_address \<Longrightarrow> getStatus t (GetFactory (AiOp ctx)) rc = Inr banned \<Longrightarrow>
   checkFactoryStatus rc t ctx
     = Some (RPCError BANNED_OR_THROTTLED_ENTITY (BannedEntity (GetFactory (AiOp ctx))))"
  by (simp add: checkFactoryStatus_def)

lemma checkPaymasterStatus_banned:
  "GetPaymaster (AiOp ctx) \<noteq> zero_address \<Longrightarrow> getStatus t (GetPaymaster (AiOp ctx)) rc = Inr banned \<Longrightarrow>
   checkPaymasterStatus rc t ctx
     = Some (RPCError BANNED_OR_THROTTLED_ENTITY (BannedEntity (GetPaymaster (AiOp ctx))))"
  by (simp add: checkPaymasterStatus_def)

lemma checkSenderStatus_cases:
  "getStatus t (Sender (AiOp ctx)) rc = Inr s \<Longrightarrow>
   checkSenderStatus rc t ctx = None
   \<or> (\<exists>msg. checkSenderStatus rc t ctx = Some (RPCError BANNED_OR_THROTTLED_ENTITY msg))"
  by (simp add: checkSenderStatus_def)

lemma checkFactoryStatus_cases:
  "GetFactory (AiOp ctx) = zero_address \<or> (\<exists>s. getStatus t (GetFactory (AiOp ctx)) rc = Inr s) \<Longrightarrow>
   checkFactoryStatus rc t ctx = None
   \<or> (\<exists>msg. checkFactoryStatus rc t ctx = Some (RPCError BANNED_OR_THROTTLED_ENTITY msg))"
  by (auto simp: checkFactoryStatus_def Let_def)

lemma banned_never_admitted:
  assumes "getStatus t (Sender (AiOp ctx)) rc = Inr banned
      \<or> (GetFactory (AiOp ctx) \<noteq> zero_address
          \<and> getStatus t (GetFactory (AiOp ctx)) rc = Inr banned)
      \<or> (GetPaymaster (AiOp ctx) \<noteq> zero_address
          \<and> getStatus t (GetPaymaster (AiOp ctx)) rc = Inr banned)"
  shows "CheckStatus rc t ctx \<noteq> None"
  using assms
  by (auto simp: CheckStatus_def checkSenderStatus_banned checkFactoryStatus_banned
      checkPaymasterStatus_banned split: option.splits)

text \<open>
  C6. When the sender, the factory (a non-zero address from \<open>initCode\<close>) or the paymaster (a
  non-zero address from \<open>paymasterAndData\<close>) has the derived status banned, \<open>CheckStatus\<close>
  rejects the op: it never returns nil, and the error is BannedOrThrottled, code \<open>-32502\<close>.
  The entities are checked in the order sender, factory, paymaster, and the check of an
  entity is reached when the status of the entities before it could be read from the store
  (a read that fails ends \<open>CheckStatus\<close> with the error of the store).
\<close>

theorem CheckStatus_banned:
  "(getStatus t (Sender (AiOp ctx)) rc = Inr banned
      \<or> (GetFactory (AiOp ctx) \<noteq> zero_address
          \<and> getStatus t (GetFactory (AiOp ctx)) rc = Inr banned)
      \<or> (GetPaymaster (AiOp ctx) \<noteq> zero_address
          \<and> getStatus t (GetPaymaster (AiOp ctx)) rc = Inr banned)
      \<longrightarrow> CheckStatus rc t ctx \<noteq> None)
   \<and> (getStatus t (Sender (AiOp ctx)) rc = Inr banned
      \<longrightarrow> (\<exists>msg. CheckStatus rc t ctx = Some (RPCError (- 32502) msg)))
   \<and> (GetFactory (AiOp ctx) \<noteq> zero_address
      \<and> getStatus t (GetFactory (AiOp ctx)) rc = Inr banned
      \<and> (\<exists>s. getStatus t (Sender (AiOp ctx)) rc = Inr s)
      \<longrightarrow> (\<exists>msg. CheckStatus rc t ctx = Some (RPCError (- 32502) msg)))
   \<and> (GetPaymaster (AiOp ctx) \<noteq> zero_address
      \<and> getStatus t (GetPaymaster (AiOp ctx)) rc = Inr banned
      \<and> (\<exists>s. getStatus t (Sender (AiOp ctx)) rc = Inr s)
      \<and> (GetFactory (AiOp ctx) = zero_address \<or> (\<exists>s. getStatus t (GetFactory (AiOp ctx)) rc = Inr s))
      \<longrightarrow> (\<exists>msg. CheckStatus rc t ctx = Some (RPCError (- 32502) msg)))"
proof (intro conjI impI)
  assume "getStatus t (Sender (AiOp ctx)) rc = Inr banned
      \<or> (GetFactory (AiOp ctx) \<noteq> zero_address
          \<and> getStatus t (GetFactory (AiOp ctx)) rc = Inr banned)
      \<or> (GetPaymaster (AiOp ctx) \<noteq> zero_address
          \<and> getStatus t (GetPaymaster (AiOp ctx)) rc = Inr banned)"
  then show "CheckStatus rc t ctx \<noteq> None"
    by (rule banned_never_admitted)
next
  assume "getStatus t (Sender (AiOp ctx)) rc = Inr banned"
  then show "\<exists>msg. CheckStatus rc t ctx = Some (RPCError (- 32502) msg)"
    by (simp add: CheckStatus_def checkSenderStatus_banned BANNED_OR_THROTTLED_ENTITY_def)
next
  assume a: "GetFactory (AiOp ctx) \<noteq> zero_address
      \<and> getStatus t (GetFactory (AiOp ctx)) rc = Inr banned
      \<and> (\<exists>s. getStatus t (Sender (AiOp ctx)) rc = Inr s)"
  then obtain s where "getStatus t (Sender (AiOp ctx)) rc = Inr s" by blast
  from checkSenderStatus_cases [OF this] a
  show "\<exists>msg. CheckStatus rc t ctx = Some (RPCError (- 32502) msg)"
    by (auto simp: CheckStatus_def checkFactoryStatus_banned BANNED_OR_THROTTLED_ENTITY_def)
next
  assume a: "GetPaymaster (AiOp ctx) \<noteq> zero_address
      \<and> getStatus t (GetPaymaster (AiOp ctx)) rc = Inr banned
      \<and> (\<exists>s. getStatus t (Sender (AiOp ctx)) rc = Inr s)
      \<and> (GetFactory (AiOp ctx) = zero_address \<or> (\<exists>s. getStatus t (GetFactory (AiOp ctx)) rc = Inr s))"
  then obtain s where "getStatus t (Sender (AiOp ctx)) rc = Inr s" by blast
  from checkSenderStatus_cases [OF this] checkFactoryStatus_cases [of ctx t rc] a
  show "\<exists>msg. CheckStatus rc t ctx = Some (RPCError (- 32502) msg)"
    by (auto simp: CheckStatus_def checkPaymasterStatus_banned BANNED_OR_THROTTLED_ENTITY_def)
qed

lemma getStatus_ex:
  "getStatus exTxn 1 defaultReputationConstants = Inr throttled"
  "getStatus exTxn 2 defaultReputationConstants = Inr banned"
  "getStatus exTxn 3 defaultReputationConstants = Inr ok"
  by (simp_all add: getStatus_def exTxn_def defaultReputationConstants_def)

lemma ex_paymaster: "GetPaymaster (AiOp exBannedPaymasterIngress) = 2"
  by (simp add: exBannedPaymasterIngress_def GetPaymaster_def BytesToAddress_def from_be_def
      exOp_def)

lemma ex_factory: "GetFactory (AiOp exBannedPaymasterIngress) = zero_address"
  "GetFactory (AiOp exThrottledIngress) = zero_address"
  "GetPaymaster (AiOp exThrottledIngress) = zero_address"
  by (simp_all add: exBannedPaymasterIngress_def exThrottledIngress_def GetFactory_def GetPaymaster_def exOp_def)

theorem CheckStatus_banned_witness:
  "GetPaymaster (AiOp exBannedPaymasterIngress) \<noteq> zero_address
   \<and> getStatus exTxn (GetPaymaster (AiOp exBannedPaymasterIngress)) defaultReputationConstants = Inr banned
   \<and> getStatus exTxn (Sender (AiOp exBannedPaymasterIngress)) defaultReputationConstants = Inr ok
   \<and> GetFactory (AiOp exBannedPaymasterIngress) = zero_address
   \<and> (\<exists>msg. CheckStatus defaultReputationConstants exTxn exBannedPaymasterIngress
          = Some (RPCError (- 32502) msg))"
  using CheckStatus_banned [of exTxn exBannedPaymasterIngress defaultReputationConstants]
  by (simp add: ex_paymaster ex_factory getStatus_ex zero_address_def)
     (simp add: exBannedPaymasterIngress_def getStatus_ex)

text \<open>At exactly the count a throttled sender is rejected.\<close>

lemma CheckStatus_throttled_at_count:
  assumes "getStatus t (Sender (AiOp ctx)) rc = Inr throttled"
    and "int (length (pendingSenderOps ctx)) = ThrottledEntityMempoolCount rc"
  shows "CheckStatus rc t ctx
    = Some (RPCError BANNED_OR_THROTTLED_ENTITY (ThrottledEntity (Sender (AiOp ctx))))"
  using assms by (simp add: CheckStatus_def checkSenderStatus_def)

lemma ex_throttled_fields:
  "Sender (AiOp exThrottledIngress) = 1"
  "int (length (pendingSenderOps exThrottledIngress)) = 5"
  "ThrottledEntityMempoolCount defaultReputationConstants = 4"
  by (simp_all add: exThrottledIngress_def exOp_def defaultReputationConstants_def)

text \<open>
  C3. A throttled sender that already has five pending ops, one more than
  \<open>ThrottledEntityMempoolCount = 4\<close>: \<open>CheckStatus\<close> compares the number of pending ops
  with the count by \<open>==\<close>, so it returns no error and the op is let in.
\<close>

theorem CheckStatus_throttled_above_count:
  "getStatus exTxn (Sender (AiOp exThrottledIngress)) defaultReputationConstants = Inr throttled
   \<and> int (length (pendingSenderOps exThrottledIngress)) = 5
   \<and> ThrottledEntityMempoolCount defaultReputationConstants = 4
   \<and> CheckStatus defaultReputationConstants exTxn exThrottledIngress = None"
  by (simp add: CheckStatus_def checkSenderStatus_def checkFactoryStatus_def checkPaymasterStatus_def
       ex_factory ex_throttled_fields getStatus_ex)


section \<open>Storage slots associated with the sender\<close>

lemma slotStep_sender:
  "isAssociatedWith ss sl \<Longrightarrow>
   slotStep v ss es addr mode sl (mss, ids)
     = Inr (if mustStakeForSenderSlot v then Some sl else mss, ids)"
  by (simp add: slotStep_def mustStakeForSenderSlot_def)

lemma slotsLoop_sender:
  "\<forall>sl \<in> set slots. isAssociatedWith ss sl \<Longrightarrow>
   slotsLoop v ss es addr mode slots (mss, ids)
     = Inr (if mustStakeForSenderSlot v \<and> slots \<noteq> [] then Some (last slots) else mss, ids)"
proof (induction slots arbitrary: mss)
  case Nil
  then show ?case by simp
next
  case (Cons sl slots)
  then show ?case by (simp add: slotStep_sender)
qed

lemma modesLoop_sender:
  assumes "\<forall>sl \<in> set (rs @ ws). isAssociatedWith ss sl"
  shows "modesLoop v ss es addr [(accessModeRead, rs), (accessModeWrite, ws)] (mss, ids)
     = Inr (if mustStakeForSenderSlot v \<and> rs @ ws \<noteq> [] then Some (last (rs @ ws)) else mss, ids)"
proof -
  from assms have r: "\<forall>sl \<in> set rs. isAssociatedWith ss sl"
    and w: "\<forall>sl \<in> set ws. isAssociatedWith ss sl" by simp_all
  show ?thesis
  proof (cases "ws = []")
    case True
    then show ?thesis by (simp add: slotsLoop_sender [OF r])
  next
    case False
    then show ?thesis by (simp add: slotsLoop_sender [OF r] slotsLoop_sender [OF w])
  qed
qed

lemma slotsIn_Nil: "slotsIn v [] = []"
  by (simp add: slotsIn_def)

lemma slotsIn_Cons:
  "slotsIn v ((addr, access) # m) =
     (if addr = Sender (Op v) \<or> addr = AiMiddlewareAddr v then []
      else map fst (Reads access) @ map fst (Writes access)) @ slotsIn v m"
  by (simp add: slotsIn_def)

lemma accessLoop_permitted:
  "\<forall>sl \<in> set (slotsIn v m). isAssociatedWith ss sl \<Longrightarrow>
   \<not> mustStakeForSenderSlot v \<or> EntityIsStaked v \<Longrightarrow>
   accessLoop v ss es m ids = (ids, None)"
proof (induction m arbitrary: ids)
  case Nil
  then show ?case by simp
next
  case (Cons e m)
  obtain addr access where e: "e = (addr, access)" by (cases e)
  from Cons.prems(1) e have rest: "\<forall>sl \<in> set (slotsIn v m). isAssociatedWith ss sl"
    by (simp add: slotsIn_Cons)
  show ?case
  proof (cases "addr = Sender (Op v) \<or> addr = AiMiddlewareAddr v")
    case True
    with Cons.IH [OF rest Cons.prems(2)] e show ?thesis by simp
  next
    case False
    with Cons.prems(1) e
    have here: "\<forall>sl \<in> set (map fst (Reads access) @ map fst (Writes access)). isAssociatedWith ss sl"
      by (auto simp: slotsIn_Cons)
    from False e Cons.IH [OF rest Cons.prems(2)] Cons.prems(2) show ?thesis
      by (simp add: modesLoop_sender [OF here] del: modesLoop.simps)
  qed
qed

lemma accessLoop_unstaked:
  "\<forall>sl \<in> set (slotsIn v m). isAssociatedWith ss sl \<Longrightarrow>
   mustStakeForSenderSlot v \<Longrightarrow> \<not> EntityIsStaked v \<Longrightarrow> slotsIn v m \<noteq> [] \<Longrightarrow>
   \<exists>target sl. accessLoop v ss es m ids = (ids, Some (UnstakedAccess (EntityName v) target sl))"
proof (induction m arbitrary: ids)
  case Nil
  then show ?case by (simp add: slotsIn_Cons slotsIn_Nil)
next
  case (Cons e m)
  obtain addr access where e: "e = (addr, access)" by (cases e)
  from Cons.prems(1) e have rest: "\<forall>sl \<in> set (slotsIn v m). isAssociatedWith ss sl"
    by (simp add: slotsIn_Cons)
  show ?case
  proof (cases "addr = Sender (Op v) \<or> addr = AiMiddlewareAddr v")
    case True
    with Cons.prems(4) e have "slotsIn v m \<noteq> []" by (simp add: slotsIn_Cons slotsIn_Nil)
    from Cons.IH [OF rest Cons.prems(2,3) this] True e show ?thesis by simp
  next
    case False
    with Cons.prems(1) e
    have here: "\<forall>sl \<in> set (map fst (Reads access) @ map fst (Writes access)). isAssociatedWith ss sl"
      by (auto simp: slotsIn_Cons)
    show ?thesis
    proof (cases "map fst (Reads access) @ map fst (Writes access) = []")
      case True
      with Cons.prems(4) e False have ne: "slotsIn v m \<noteq> []" by (simp add: slotsIn_Cons slotsIn_Nil)
      from Cons.IH [OF rest Cons.prems(2,3) ne, of ids] True False e
      show ?thesis by simp
    next
      case ne: False
      with False e Cons.prems(2,3) show ?thesis
        by (simp add: modesLoop_sender [OF here] del: modesLoop.simps)
    qed
  qed
qed

text \<open>
  C7 (as amended). For every entity under validation, consider the storage reads and writes
  to addresses other than the sender and the middleware whose slots are associated with the
  sender, that is, lie in \<open>[s, s + 128]\<close> for a slot \<open>s\<close> of the sender. When the op has no
  \<open>initCode\<close>, or the factory is staked and the entity under validation is the sender, they
  are permitted with no stake requirement and no rejection. When the op has an \<open>initCode\<close>
  and the factory is not staked or the entity is not the sender, they require the entity to
  be staked: a staked entity passes and an unstaked entity is rejected.
\<close>

theorem Process_sender_slots:
  assumes "contractSizeLoop rip v (EntityContractSizeMap v) = None"
    and "\<forall>sl \<in> set (accessedSlots v). isAssociatedWith (senderSlotsOf v) sl"
  shows "(\<not> mustStakeForSenderSlot v \<longrightarrow> Process rip v = ([], None))
       \<and> (mustStakeForSenderSlot v \<and> EntityIsStaked v \<longrightarrow> Process rip v = ([], None))
       \<and> (mustStakeForSenderSlot v \<and> \<not> EntityIsStaked v \<and> accessedSlots v \<noteq> []
            \<longrightarrow> (\<exists>target sl. Process rip v
                    = ([], Some (UnstakedAccess (EntityName v) target sl))))"
proof -
  from assms(2) have a: "\<forall>sl \<in> set (slotsIn v (EntityAccessMap v)). isAssociatedWith (senderSlotsOf v) sl"
    by (simp add: accessedSlots_def)
  have p: "Process rip v = accessLoop v (senderSlotsOf v)
              (case EntitySlots v of None \<Rightarrow> [] | Some s \<Rightarrow> s) (EntityAccessMap v) []"
    using assms(1) by (simp add: Process_def senderSlotsOf_def)
  show ?thesis
  proof (intro conjI impI)
    assume "\<not> mustStakeForSenderSlot v"
    then show "Process rip v = ([], None)"
      using accessLoop_permitted [OF a] p by simp
  next
    assume "mustStakeForSenderSlot v \<and> EntityIsStaked v"
    then show "Process rip v = ([], None)"
      using accessLoop_permitted [OF a] p by simp
  next
    assume h: "mustStakeForSenderSlot v \<and> \<not> EntityIsStaked v \<and> accessedSlots v \<noteq> []"
    then have "slotsIn v (EntityAccessMap v) \<noteq> []" by (simp add: accessedSlots_def)
    with h accessLoop_unstaked [OF a] p
    show "\<exists>target sl. Process rip v = ([], Some (UnstakedAccess (EntityName v) target sl))"
      by simp
  qed
qed


lemma exValidator_fields:
  "Sender (Op (exValidator ic)) = 1"
  "AiMiddlewareAddr (exValidator ic) = 7"
  "InitCode (Op (exValidator ic)) = ic"
  "FactoryIsStaked (exValidator ic) = False"
  "EntityIsStaked (exValidator ic) = False"
  "EntityAddr (exValidator ic) = 5"
  "EntityName (exValidator ic) = ''paymaster''"
  "SenderSlots (exValidator ic) = Some [100]"
  "EntitySlots (exValidator ic) = Some []"
  "EntityAccessMap (exValidator ic) = [(9, \<lparr>Reads = [(105, ''0x01'')], Writes = []\<rparr>)]"
  "senderSlotsOf (exValidator ic) = [100]"
  "accessedSlots (exValidator ic) = [105]"
  "contractSizeLoop 256 (exValidator ic) (EntityContractSizeMap (exValidator ic)) = None"
  by (simp_all add: exValidator_def exOp_def senderSlotsOf_def accessedSlots_def slotsIn_def)

lemma isAssociatedWith_ex: "isAssociatedWith [100] 105"
  by (simp add: isAssociatedWith_def associatedSlotOffset_def)

theorem Process_sender_slots_witness:
  "contractSizeLoop 256 (exValidator []) (EntityContractSizeMap (exValidator [])) = None
   \<and> list_all (isAssociatedWith (senderSlotsOf (exValidator []))) (accessedSlots (exValidator []))
   \<and> \<not> mustStakeForSenderSlot (exValidator [])
   \<and> \<not> EntityIsStaked (exValidator [])
   \<and> Process 256 (exValidator []) = ([], None)"
  using Process_sender_slots [of 256 "exValidator []"]
  by (simp add: exValidator_fields isAssociatedWith_ex mustStakeForSenderSlot_def)

lemma addr2KnownEntity_ex: "addr2KnownEntity (Op (exValidator exInitCode)) 9 = OtherAddress 9"
  by (simp add: addr2KnownEntity_def exValidator_def exOp_def exInitCode_def GetFactory_def
      GetPaymaster_def BytesToAddress_def from_be_def)

lemma mustStake_ex: "mustStakeForSenderSlot (exValidator exInitCode)"
  by (simp add: mustStakeForSenderSlot_def exValidator_fields exInitCode_def)

text \<open>
  The claim as stated fails: with an \<open>initCode\<close> and an unstaked factory, the unstaked
  paymaster that read a slot associated with the sender is rejected.
\<close>

theorem Process_sender_slots_counterexample:
  "isAssociatedWith (senderSlotsOf (exValidator exInitCode)) 105
   \<and> accessedSlots (exValidator exInitCode) = [105]
   \<and> (9 :: address) \<noteq> Sender (Op (exValidator exInitCode))
   \<and> (9 :: address) \<noteq> AiMiddlewareAddr (exValidator exInitCode)
   \<and> Process 256 (exValidator exInitCode)
       = ([], Some (UnstakedAccess ''paymaster'' (OtherAddress 9) 105))"
proof -
  have "Process 256 (exValidator exInitCode)
      = accessLoop (exValidator exInitCode) [100] []
          [(9, \<lparr>Reads = [(105, ''0x01'')], Writes = []\<rparr>)] []"
    by (simp add: Process_def Let_def exValidator_fields del: accessLoop.simps)
  also have "\<dots> = ([], Some (UnstakedAccess ''paymaster''
                     (addr2KnownEntity (Op (exValidator exInitCode)) 9) 105))"
    by (simp add: exValidator_fields slotStep_sender isAssociatedWith_ex mustStake_ex)
  finally show ?thesis
    by (simp add: addr2KnownEntity_ex exValidator_fields isAssociatedWith_ex)
qed


section \<open>Submitters\<close>

lemma onlyRemovals_refl: "onlyRemovals ctx ctx"
  unfolding onlyRemovals_def by (rule exI [of _ "[]"]) simp

lemma onlyRemovals_Mark: "onlyRemovals ctx (MarkOpIndexForRemoval ctx index reason)"
proof (cases "0 \<le> index \<and> nat index < length (Batch ctx)")
  case False
  then have "MarkOpIndexForRemoval ctx index reason = ctx"
    by (auto simp: MarkOpIndexForRemoval_def)
  then show ?thesis by (simp add: onlyRemovals_refl)
next
  case True
  define i where "i = nat index"
  from True have i: "i < length (Batch ctx)" by (simp add: i_def)
  have m: "MarkOpIndexForRemoval ctx index reason
      = ctx\<lparr>Batch := take i (Batch ctx) @ drop (Suc i) (Batch ctx),
            PendingRemoval := PendingRemoval ctx @ [(Batch ctx ! i, reason)]\<rparr>"
    using True by (simp add: MarkOpIndexForRemoval_def i_def)
  have "mset (Batch ctx) = mset (take i (Batch ctx) @ Batch ctx ! i # drop (Suc i) (Batch ctx))"
    using id_take_nth_drop [OF i] by simp
  then have "mset (map fst [(Batch ctx ! i, reason)])
      + mset (take i (Batch ctx) @ drop (Suc i) (Batch ctx)) = mset (Batch ctx)"
    by simp
  then show ?thesis
    unfolding onlyRemovals_def m
    by (intro exI [of _ "[(Batch ctx ! i, reason)]"]) simp
qed

lemma onlyRemovals_trans:
  assumes "onlyRemovals ctx ctx1" and "onlyRemovals ctx1 ctx2"
  shows "onlyRemovals ctx ctx2"
proof -
  from assms(1) obtain r1 where r1:
    "ctx1 = ctx\<lparr>Batch := Batch ctx1, PendingRemoval := PendingRemoval ctx @ r1\<rparr>"
    "mset (map fst r1) + mset (Batch ctx1) = mset (Batch ctx)"
    unfolding onlyRemovals_def by blast
  from assms(2) obtain r2 where r2:
    "ctx2 = ctx1\<lparr>Batch := Batch ctx2, PendingRemoval := PendingRemoval ctx1 @ r2\<rparr>"
    "mset (map fst r2) + mset (Batch ctx2) = mset (Batch ctx1)"
    unfolding onlyRemovals_def by blast
  from r1(1) have p: "PendingRemoval ctx1 = PendingRemoval ctx @ r1"
    by (metis BatchHandlerCtx.select_convs(2) BatchHandlerCtx.surjective BatchHandlerCtx.update_convs(1,2))
  have "ctx2 = ctx\<lparr>Batch := Batch ctx2, PendingRemoval := PendingRemoval ctx @ (r1 @ r2)\<rparr>"
    by (subst r2(1), subst r1(1)) (simp add: p)
  moreover have "mset (map fst (r1 @ r2)) + mset (Batch ctx2) = mset (Batch ctx)"
    using r1(2) r2(2) by (simp add: add.assoc)
  ultimately show ?thesis unfolding onlyRemovals_def by blast
qed


lemma estimateLoop_inv:
  assumes "estimateLoop w n ctx opts evs = Some y"
  shows "onlyRemovals ctx (fst (snd y))
       \<and> (\<exists>es. snd (snd (snd y)) = evs @ es \<and> list_all isEstimate es)"
proof (rule estimateLoop.raw_induct
    [where P = "\<lambda>w n ctx opts evs y. onlyRemovals ctx (fst (snd y))
       \<and> (\<exists>es. snd (snd (snd y)) = evs @ es \<and> list_all isEstimate es)", OF _ assms])
  fix f :: "world \<Rightarrow> nat \<Rightarrow> BatchHandlerCtx \<Rightarrow> Opts \<Rightarrow> event list
      \<Rightarrow> (error option \<times> BatchHandlerCtx \<times> Opts \<times> event list) option"
  fix w n ctx opts evs y
  assume IH: "\<And>w n ctx opts evs y. f w n ctx opts evs = Some y \<Longrightarrow>
      onlyRemovals ctx (fst (snd y))
       \<and> (\<exists>es. snd (snd (snd y)) = evs @ es \<and> list_all isEstimate es)"
  assume body: "(if 0 < length (Batch ctx) then
        (case EstimateHandleOpsGas w n opts of (est, revert, err) \<Rightarrow>
           (case err of
              Some e \<Rightarrow> Some (Some (ExternalError e), ctx, opts, evs @ [EvEstimateGas opts])
            | None \<Rightarrow>
               (case revert of
                  Some (opIndex, reason) \<Rightarrow>
                    f w (Suc n) (MarkOpIndexForRemoval ctx opIndex reason) opts
                      (evs @ [EvEstimateGas opts])
                | None \<Rightarrow>
                    Some (None, ctx, opts\<lparr>OptsGasLimit := est\<rparr>, evs @ [EvEstimateGas opts]))))
      else Some (None, ctx, opts, evs)) = Some y"
  show "onlyRemovals ctx (fst (snd y))
       \<and> (\<exists>es. snd (snd (snd y)) = evs @ es \<and> list_all isEstimate es)"
  proof (cases "0 < length (Batch ctx)")
    case False
    with body have "y = (None, ctx, opts, evs)" by simp
    then show ?thesis by (simp add: onlyRemovals_refl)
  next
    case True
    obtain est revert err where e: "EstimateHandleOpsGas w n opts = (est, revert, err)"
      by (cases "EstimateHandleOpsGas w n opts")
    show ?thesis
    proof (cases err)
      case (Some msg)
      with True e body have "y = (Some (ExternalError msg), ctx, opts, evs @ [EvEstimateGas opts])"
        by simp
      then show ?thesis by (simp add: onlyRemovals_refl)
    next
      case None
      show ?thesis
      proof (cases revert)
        case rn: None
        with None True e body
        have "y = (None, ctx, opts\<lparr>OptsGasLimit := est\<rparr>, evs @ [EvEstimateGas opts])"
          by simp
        then show ?thesis by (simp add: onlyRemovals_refl)
      next
        case (Some ir)
        obtain opIndex reason where ir: "ir = (opIndex, reason)" by (cases ir)
        with Some None True e body
        have "f w (Suc n) (MarkOpIndexForRemoval ctx opIndex reason) opts
                (evs @ [EvEstimateGas opts]) = Some y"
          by simp
        from IH [OF this] obtain es where
          a: "onlyRemovals (MarkOpIndexForRemoval ctx opIndex reason) (fst (snd y))"
          and b: "snd (snd (snd y)) = (evs @ [EvEstimateGas opts]) @ es" "list_all isEstimate es"
          by blast
        from a have "onlyRemovals ctx (fst (snd y))"
          by (rule onlyRemovals_trans [OF onlyRemovals_Mark])
        moreover from b have "snd (snd (snd y)) = evs @ (EvEstimateGas opts # es)
            \<and> list_all isEstimate (EvEstimateGas opts # es)"
          by simp
        ultimately show ?thesis by blast
      qed
    qed
  qed
qed

lemma onlyRemovals_empty:
  "onlyRemovals ctx ctx1 \<Longrightarrow> Batch ctx1 = [] \<Longrightarrow>
   \<exists>removed. ctx1 = ctx\<lparr>Batch := [], PendingRemoval := PendingRemoval ctx @ removed\<rparr>
      \<and> mset (map fst removed) = mset (Batch ctx)"
  unfolding onlyRemovals_def by auto

text \<open>
  C10. When the estimation loop of the relay handler or of the searcher handler ends with no
  error and an empty batch (every op was dropped, or the batch was empty from the start), the
  handler returns nil; the only events are gas estimates, so no bundle was broadcast and no
  transaction was built or sent; and the context differs from the one the handler was given
  only in that the ops of the batch are now in \<open>PendingRemoval\<close>.
\<close>

theorem SendAiOperation_empty_batch:
  "(estimateLoop w 0 ctx (relayOpts r ctx) [] = Some (None, ctxR, optsR, evsR) \<and> Batch ctxR = []
      \<longrightarrow> relay_SendAiOperation r w ctx = Some (None, ctxR, evsR)
        \<and> list_all isEstimate evsR
        \<and> (\<exists>removed. ctxR = ctx\<lparr>Batch := [], PendingRemoval := PendingRemoval ctx @ removed\<rparr>
              \<and> mset (map fst removed) = mset (Batch ctx)))
   \<and> (estimateLoop w 0 ctx (builderOpts b ctx) [] = Some (None, ctxB, optsB, evsB) \<and> Batch ctxB = []
      \<longrightarrow> builder_SendAiOperation b w ctx = Some (None, ctxB, evsB)
        \<and> list_all isEstimate evsB
        \<and> (\<exists>removed. ctxB = ctx\<lparr>Batch := [], PendingRemoval := PendingRemoval ctx @ removed\<rparr>
              \<and> mset (map fst removed) = mset (Batch ctx)))"
proof (intro conjI impI)
  assume a: "estimateLoop w 0 ctx (relayOpts r ctx) [] = Some (None, ctxR, optsR, evsR) \<and> Batch ctxR = []"
  then show "relay_SendAiOperation r w ctx = Some (None, ctxR, evsR)"
    by (simp add: relay_SendAiOperation_def)
  from a estimateLoop_inv [of w 0 ctx "relayOpts r ctx" "[]" "(None, ctxR, optsR, evsR)"]
  have i: "onlyRemovals ctx ctxR" "list_all isEstimate evsR" by auto
  from i(2) show "list_all isEstimate evsR" .
  from i(1) a show "\<exists>removed. ctxR = ctx\<lparr>Batch := [], PendingRemoval := PendingRemoval ctx @ removed\<rparr>
              \<and> mset (map fst removed) = mset (Batch ctx)"
    by (intro onlyRemovals_empty) simp_all
next
  assume a: "estimateLoop w 0 ctx (builderOpts b ctx) [] = Some (None, ctxB, optsB, evsB) \<and> Batch ctxB = []"
  then show "builder_SendAiOperation b w ctx = Some (None, ctxB, evsB)"
    by (simp add: builder_SendAiOperation_def)
  from a estimateLoop_inv [of w 0 ctx "builderOpts b ctx" "[]" "(None, ctxB, optsB, evsB)"]
  have i: "onlyRemovals ctx ctxB" "list_all isEstimate evsB" by auto
  from i(2) show "list_all isEstimate evsB" .
  from i(1) a show "\<exists>removed. ctxB = ctx\<lparr>Batch := [], PendingRemoval := PendingRemoval ctx @ removed\<rparr>
              \<and> mset (map fst removed) = mset (Batch ctx)"
    by (intro onlyRemovals_empty) simp_all
qed

lemma estimateLoop_done:
  "Batch ctx = [] \<Longrightarrow> estimateLoop w n ctx opts evs = Some (None, ctx, opts, evs)"
  by (subst estimateLoop.simps) simp

lemma estimateLoop_revert_step:
  "Batch ctx \<noteq> [] \<Longrightarrow>
   estimateLoop (exWorld True bs) n ctx opts evs
     = estimateLoop (exWorld True bs) (Suc n) (MarkOpIndexForRemoval ctx 0 ''AA23 reverted'') opts
         (evs @ [EvEstimateGas opts])"
  by (subst estimateLoop.simps) (simp add: exWorld_def)

lemma estimateLoop_ok_step:
  "Batch ctx \<noteq> [] \<Longrightarrow>
   estimateLoop (exWorld False bs) n ctx opts evs
     = Some (None, ctx, opts\<lparr>OptsGasLimit := 500000\<rparr>, evs @ [EvEstimateGas opts])"
  by (subst estimateLoop.simps) (simp add: exWorld_def)

lemma exTwoOps_steps:
  "MarkOpIndexForRemoval exTwoOps 0 ''AA23 reverted''
     = exTwoOps\<lparr>Batch := [exOp 2 0], PendingRemoval := [(exOp 1 0, ''AA23 reverted'')]\<rparr>"
  "MarkOpIndexForRemoval
     (exTwoOps\<lparr>Batch := [exOp 2 0], PendingRemoval := [(exOp 1 0, ''AA23 reverted'')]\<rparr>)
     0 ''AA23 reverted'' = exTwoOpsRemoved"
  by (simp_all add: MarkOpIndexForRemoval_def exTwoOps_def exTwoOpsRemoved_def exCtx_def)

lemma estimateLoop_exTwoOps:
  "estimateLoop (exWorld True bs) 0 exTwoOps opts []
     = Some (None, exTwoOpsRemoved, opts, [EvEstimateGas opts, EvEstimateGas opts])"
proof -
  have a: "Batch exTwoOps \<noteq> []" by (simp add: exTwoOps_def exCtx_def)
  have b: "Batch (exTwoOps\<lparr>Batch := [exOp 2 0],
              PendingRemoval := [(exOp 1 0, ''AA23 reverted'')]\<rparr>) \<noteq> []" by simp
  have c: "Batch exTwoOpsRemoved = []" by (simp add: exTwoOpsRemoved_def)
  show ?thesis
    by (simp add: estimateLoop_revert_step [OF a] exTwoOps_steps(1)
        estimateLoop_revert_step [OF b] exTwoOps_steps(2) estimateLoop_done [OF c])
qed

theorem SendAiOperation_empty_batch_witness:
  "estimateLoop (exWorld True []) 0 exTwoOps (relayOpts exRelayer exTwoOps) []
     = Some (None, exTwoOpsRemoved, relayOpts exRelayer exTwoOps,
             [EvEstimateGas (relayOpts exRelayer exTwoOps), EvEstimateGas (relayOpts exRelayer exTwoOps)])
   \<and> estimateLoop (exWorld True []) 0 exTwoOps (builderOpts exBuilderClient exTwoOps) []
     = Some (None, exTwoOpsRemoved, builderOpts exBuilderClient exTwoOps,
             [EvEstimateGas (builderOpts exBuilderClient exTwoOps),
              EvEstimateGas (builderOpts exBuilderClient exTwoOps)])
   \<and> Batch exTwoOpsRemoved = []
   \<and> relay_SendAiOperation exRelayer (exWorld True []) exTwoOps
     = Some (None, exTwoOpsRemoved,
             [EvEstimateGas (relayOpts exRelayer exTwoOps), EvEstimateGas (relayOpts exRelayer exTwoOps)])
   \<and> builder_SendAiOperation exBuilderClient (exWorld True []) exTwoOps
     = Some (None, exTwoOpsRemoved,
             [EvEstimateGas (builderOpts exBuilderClient exTwoOps),
              EvEstimateGas (builderOpts exBuilderClient exTwoOps)])"
  using SendAiOperation_empty_batch
    [where w = "exWorld True []" and ctx = exTwoOps and r = exRelayer and b = exBuilderClient
       and ctxR = exTwoOpsRemoved and ctxB = exTwoOpsRemoved
       and optsR = "relayOpts exRelayer exTwoOps" and optsB = "builderOpts exBuilderClient exTwoOps"
       and evsR = "[EvEstimateGas (relayOpts exRelayer exTwoOps),
                    EvEstimateGas (relayOpts exRelayer exTwoOps)]"
       and evsB = "[EvEstimateGas (builderOpts exBuilderClient exTwoOps),
                    EvEstimateGas (builderOpts exBuilderClient exTwoOps)]"]
  by (simp add: estimateLoop_exTwoOps) (simp add: exTwoOpsRemoved_def)

lemma resultsLoop_fst:
  "fst (resultsLoop rs (shouldFail, errs)) = (shouldFail \<and> list_all (\<lambda>r. r \<noteq> None) rs)"
  by (induction rs arbitrary: shouldFail errs) (auto split: option.splits)

lemma broadcastLoop_unfold:
  "broadcastLoop w txn nbn i n (flags, evs) =
     (if i < n then
        broadcastLoop w txn nbn (i + 1) n
          (resultsLoop (BroadcastBundle w (sendBundleArgs txn nbn i)) flags,
           evs @ [EvBroadcastBundle (sendBundleArgs txn nbn i)])
      else (flags, evs))"
  by (subst broadcastLoop.simps) simp

declare broadcastLoop.simps [simp del]

lemma broadcastLoop_shouldFail:
  "fst (fst (broadcastLoop w txn nbn i n ((shouldFail, errs), evs)))
     = (shouldFail \<and> (\<forall>j. i \<le> j \<and> j < n \<longrightarrow>
          list_all (\<lambda>r. r \<noteq> None) (BroadcastBundle w (sendBundleArgs txn nbn j))))"
proof (induction "nat (n - i)" arbitrary: i shouldFail errs evs)
  case 0
  then have "\<not> i < n" by simp
  then show ?case by (subst broadcastLoop_unfold) auto
next
  case (Suc k)
  then have lt: "i < n" and k: "k = nat (n - (i + 1))" by simp_all
  obtain sf' errs' where r: "resultsLoop (BroadcastBundle w (sendBundleArgs txn nbn i)) (shouldFail, errs) = (sf', errs')"
    by (cases "resultsLoop (BroadcastBundle w (sendBundleArgs txn nbn i)) (shouldFail, errs)")
  from resultsLoop_fst [of "BroadcastBundle w (sendBundleArgs txn nbn i)" shouldFail errs] r
  have sf': "sf' = (shouldFail \<and> list_all (\<lambda>r. r \<noteq> None) (BroadcastBundle w (sendBundleArgs txn nbn i)))"
    by simp
  have split: "\<And>Q. (\<forall>j. i \<le> j \<and> j < n \<longrightarrow> Q j) = (Q i \<and> (\<forall>j. i + 1 \<le> j \<and> j < n \<longrightarrow> Q j))"
  proof -
    fix Q :: "int \<Rightarrow> bool"
    show "(\<forall>j. i \<le> j \<and> j < n \<longrightarrow> Q j) = (Q i \<and> (\<forall>j. i + 1 \<le> j \<and> j < n \<longrightarrow> Q j))"
    proof
      assume a: "\<forall>j. i \<le> j \<and> j < n \<longrightarrow> Q j"
      with lt have "Q i" by simp
      moreover from a have "\<forall>j. i + 1 \<le> j \<and> j < n \<longrightarrow> Q j" by simp
      ultimately show "Q i \<and> (\<forall>j. i + 1 \<le> j \<and> j < n \<longrightarrow> Q j)" by simp
    next
      assume a: "Q i \<and> (\<forall>j. i + 1 \<le> j \<and> j < n \<longrightarrow> Q j)"
      show "\<forall>j. i \<le> j \<and> j < n \<longrightarrow> Q j"
      proof (intro allI impI)
        fix j assume j: "i \<le> j \<and> j < n"
        show "Q j"
        proof (cases "j = i")
          case True
          with a show ?thesis by simp
        next
          case False
          with j have "i + 1 \<le> j" by simp
          with a j show ?thesis by simp
        qed
      qed
    qed
  qed
  show ?case
    by (subst broadcastLoop_unfold) (simp add: lt r Suc.hyps(1) [OF k] sf' split)
qed


lemma builder_after_estimation:
  assumes est: "estimateLoop w 0 ctx (builderOpts b ctx) [] = Some (None, ctxB, optsB, evsB)"
    and ne: "Batch ctxB \<noteq> []"
    and bn: "EthBlockNumber w = Inr bn"
    and bf: "projectBaseFee (blocksInTheFuture b) (BaseFee ctxB) = Inr mbf"
    and tx: "HandleOps w (optsB\<lparr>OptsBaseFee := mbf\<rparr>) = Inr txn"
    and bl: "broadcastLoop w txn (int bn + 1) 0 (blocksInTheFuture b)
               ((True, []), evsB @ [EvBlockNumber, EvHandleOps (optsB\<lparr>OptsBaseFee := mbf\<rparr>)])
             = ((shouldFail, errs), evs2)"
  shows "builder_SendAiOperation b w ctx =
     (if shouldFail then Some (Some (ErrFlashbotsBroadcastBundle errs), ctxB, evs2)
      else (case Wait w txn of
              Some e \<Rightarrow> Some (Some (ExternalError e), ctxB, evs2 @ [EvWait txn])
            | None \<Rightarrow> Some (None, ctxB\<lparr>Data := (''txn_hash'', TxHash txn) # Data ctxB\<rparr>,
                            evs2 @ [EvWait txn])))"
  using ne by (simp add: builder_SendAiOperation_def est bn bf tx bl Let_def)

text \<open>
  C5. For a batch that is not empty after the gas estimation, once the searcher handler has
  the block number, the projected base fee and the transaction it broadcasts, it returns the
  \<open>ErrFlashbotsBroadcastBundle\<close> error if and only if every result of every broadcast, over
  the \<open>blocksInTheFuture\<close> target blocks and the builders, carries an error. If one broadcast
  succeeds the error is not returned.
\<close>

theorem builder_SendAiOperation_broadcast:
  assumes est: "estimateLoop w 0 ctx (builderOpts b ctx) [] = Some (None, ctxB, optsB, evsB)"
    and ne: "Batch ctxB \<noteq> []"
    and bn: "EthBlockNumber w = Inr bn"
    and bf: "projectBaseFee (blocksInTheFuture b) (BaseFee ctxB) = Inr mbf"
    and tx: "HandleOps w (optsB\<lparr>OptsBaseFee := mbf\<rparr>) = Inr txn"
  shows "(\<exists>errs c evs. builder_SendAiOperation b w ctx
            = Some (Some (ErrFlashbotsBroadcastBundle errs), c, evs))
       \<longleftrightarrow> (\<forall>i. 0 \<le> i \<and> i < blocksInTheFuture b \<longrightarrow>
              list_all (\<lambda>result. result \<noteq> None)
                (BroadcastBundle w (sendBundleArgs txn (int bn + 1) i)))"
proof -
  obtain shouldFail errs evs2 where bl:
    "broadcastLoop w txn (int bn + 1) 0 (blocksInTheFuture b)
       ((True, []), evsB @ [EvBlockNumber, EvHandleOps (optsB\<lparr>OptsBaseFee := mbf\<rparr>)])
     = ((shouldFail, errs), evs2)"
    by (metis surj_pair)
  from broadcastLoop_shouldFail [of w txn "int bn + 1" 0 "blocksInTheFuture b" True "[]"
      "evsB @ [EvBlockNumber, EvHandleOps (optsB\<lparr>OptsBaseFee := mbf\<rparr>)]"] bl
  have sf: "shouldFail = (\<forall>i. 0 \<le> i \<and> i < blocksInTheFuture b \<longrightarrow>
              list_all (\<lambda>result. result \<noteq> None)
                (BroadcastBundle w (sendBundleArgs txn (int bn + 1) i)))"
    by simp
  have "(\<exists>errs c evs. builder_SendAiOperation b w ctx
            = Some (Some (ErrFlashbotsBroadcastBundle errs), c, evs)) = shouldFail"
    unfolding builder_after_estimation [OF est ne bn bf tx bl]
    by (cases shouldFail) (auto split: option.splits)
  with sf show ?thesis by simp
qed


lemma exWorld_fields:
  "EthBlockNumber (exWorld rv bs) = Inr 1"
  "HandleOps (exWorld rv bs) opts = Inr exTransaction"
  "BroadcastBundle (exWorld rv bs) req = bs"
  "Wait (exWorld rv bs) txn = None"
  by (simp_all add: exWorld_def)

lemma exTwoOps_fields:
  "Batch exTwoOps \<noteq> []"
  "BaseFee exTwoOps = Some 1000"
  by (simp_all add: exTwoOps_def exCtx_def)

lemma projectBaseFee_one: "projectBaseFee 1 (Some 1000) = Inr (Some 1126)"
  by (simp add: projectBaseFee_def baseFeeLoop_unfold baseFeeStep_def)

theorem builder_SendAiOperation_broadcast_witness:
  "estimateLoop (exWorld False [Some ''connection refused'', Some ''request timed out'']) 0 exTwoOps
       (builderOpts exBuilderClient exTwoOps) []
     = Some (None, exTwoOps, (builderOpts exBuilderClient exTwoOps)\<lparr>OptsGasLimit := 500000\<rparr>,
             [EvEstimateGas (builderOpts exBuilderClient exTwoOps)])
   \<and> Batch exTwoOps \<noteq> []
   \<and> EthBlockNumber (exWorld False [Some ''connection refused'', Some ''request timed out'']) = Inr 1
   \<and> projectBaseFee (blocksInTheFuture exBuilderClient) (BaseFee exTwoOps) = Inr (Some 1126)
   \<and> HandleOps (exWorld False [Some ''connection refused'', Some ''request timed out''])
        ((builderOpts exBuilderClient exTwoOps)\<lparr>OptsGasLimit := 500000, OptsBaseFee := Some 1126\<rparr>)
      = Inr exTransaction
   \<and> (\<exists>errs c evs.
         builder_SendAiOperation exBuilderClient
           (exWorld False [Some ''connection refused'', Some ''request timed out'']) exTwoOps
         = Some (Some (ErrFlashbotsBroadcastBundle errs), c, evs))
   \<and> \<not> (\<exists>errs c evs.
         builder_SendAiOperation exBuilderClient
           (exWorld False [None, Some ''request timed out'']) exTwoOps
         = Some (Some (ErrFlashbotsBroadcastBundle errs), c, evs))"
proof -
  have ex: "\<exists>i::int. 0 \<le> i \<and> i < 1" by (intro exI [of _ 0]) simp
  show ?thesis
  using ex builder_SendAiOperation_broadcast
    [where w = "exWorld False [Some ''connection refused'', Some ''request timed out'']"
       and ctx = exTwoOps and b = exBuilderClient and ctxB = exTwoOps
       and optsB = "(builderOpts exBuilderClient exTwoOps)\<lparr>OptsGasLimit := 500000\<rparr>"
       and evsB = "[EvEstimateGas (builderOpts exBuilderClient exTwoOps)]"
       and bn = 1 and mbf = "Some 1126" and txn = exTransaction]
    builder_SendAiOperation_broadcast
    [where w = "exWorld False [None, Some ''request timed out'']"
       and ctx = exTwoOps and b = exBuilderClient and ctxB = exTwoOps
       and optsB = "(builderOpts exBuilderClient exTwoOps)\<lparr>OptsGasLimit := 500000\<rparr>"
       and evsB = "[EvEstimateGas (builderOpts exBuilderClient exTwoOps)]"
       and bn = 1 and mbf = "Some 1126" and txn = exTransaction]
  by (simp add: estimateLoop_ok_step exTwoOps_fields exWorld_fields projectBaseFee_one
      exBuilderClient_def)
qed


end
